theory Spec2Isabelle
  imports Complex_Main
begin

section \<open>Number model\<close>

text \<open>
  The program is TypeScript: every \<^verbatim>\<open>number\<close> is an IEEE-754 double. The embedding
  computes with exact real numbers, so rounding, overflow to \<^verbatim>\<open>Infinity\<close> and
  \<^verbatim>\<open>NaN\<close> are outside the model, except in two places where a statement depends on
  the rounding: \<open>mandelLoopFl\<close> is the escape-time loop with the rounding of every
  operation explicit, and \<open>halveDouble\<close> is the division of a double by 2 with its
  underflow. Loop counters, the iteration
  cap and canvas sizes are integers in every path of the program and are modelled as
  \<^typ>\<open>nat\<close>. Division by zero never yields a real number in the program; the theorems
  below carry the hypotheses (\<open>0 < zoom\<close>, \<open>0 < width\<close>, \<open>0 < height\<close>,
  \<open>1 \<le> maxIter\<close>) under which no division by zero happens. The clock read by
  \<^verbatim>\<open>Date.now()\<close> is an explicit argument.
\<close>

section \<open>Escape-time loop (src/App.tsx, draw, lines 116-125)\<close>

text \<open>
  \<^verbatim>\<open>
  let x = 0; let y = 0; let iteration = 0;
  while (x * x + y * y <= 4 && iteration < maxIter) {
    const xtemp = x * x - y * y + x0;
    y = 2 * x * y + y0;
    x = xtemp;
    iteration++;
  }
  \<close>
  \<open>mandelLoop\<close> is the while loop on its three variables; \<open>iterate\<close> starts it at
  \<open>x = 0\<close>, \<open>y = 0\<close>, \<open>iteration = 0\<close> as the source does. The new \<open>y\<close> is computed
  from the old \<open>x\<close>, as the temporary \<open>xtemp\<close> ensures in the source.
\<close>

function mandelLoop :: "real \<Rightarrow> real \<Rightarrow> nat \<Rightarrow> real \<Rightarrow> real \<Rightarrow> nat \<Rightarrow> nat" where
  "mandelLoop x0 y0 maxIter x y iteration =
     (if x * x + y * y \<le> 4 \<and> iteration < maxIter
      then mandelLoop x0 y0 maxIter (x * x - y * y + x0) (2 * x * y + y0) (Suc iteration)
      else iteration)"
  by pat_completeness auto
termination
  by (relation "measure (\<lambda>(x0, y0, maxIter, x, y, iteration). maxIter - iteration)") auto

declare mandelLoop.simps [simp del]

definition iterate :: "real \<Rightarrow> real \<Rightarrow> nat \<Rightarrow> nat" where
  "iterate x0 y0 maxIter = mandelLoop x0 y0 maxIter 0 0 0"

text \<open>
  The same loop with the rounding written out. The program stores the result of every
  \<^verbatim>\<open>*\<close>, \<^verbatim>\<open>+\<close> and \<^verbatim>\<open>-\<close> as a double; \<open>fl\<close> is the function that takes the exact
  result of one operation to the double that is stored, and the comparisons are exact.
  The source's expressions associate to the left: \<^verbatim>\<open>x * x - y * y + x0\<close> is
  \<^verbatim>\<open>((x * x) - (y * y)) + x0\<close> and \<^verbatim>\<open>2 * x * y + y0\<close> is \<^verbatim>\<open>((2 * x) * y) + y0\<close>.
  With \<open>fl\<close> the identity this is \<open>mandelLoop\<close>.
\<close>

function mandelLoopFl :: "(real \<Rightarrow> real) \<Rightarrow> real \<Rightarrow> real \<Rightarrow> nat \<Rightarrow> real \<Rightarrow> real \<Rightarrow> nat \<Rightarrow> nat" where
  "mandelLoopFl fl x0 y0 maxIter x y iteration =
     (if fl (fl (x * x) + fl (y * y)) \<le> 4 \<and> iteration < maxIter
      then mandelLoopFl fl x0 y0 maxIter
             (fl (fl (fl (x * x) - fl (y * y)) + x0))
             (fl (fl (fl (2 * x) * y) + y0))
             (Suc iteration)
      else iteration)"
  by pat_completeness auto
termination
  by (relation "measure (\<lambda>(fl, x0, y0, maxIter, x, y, iteration). maxIter - iteration)") auto

declare mandelLoopFl.simps [simp del]

definition iterateFl :: "(real \<Rightarrow> real) \<Rightarrow> real \<Rightarrow> real \<Rightarrow> nat \<Rightarrow> nat" where
  "iterateFl fl x0 y0 maxIter = mandelLoopFl fl x0 y0 maxIter 0 0 0"

section \<open>Color mapper (src/utils/fractalUtils.ts)\<close>

datatype ColorScheme = Classic | Fire | Ocean | Purple | Matrix | Sunset | Psychedelic

text \<open>The \<open>baseHue\<close> column of \<^verbatim>\<open>COLOR_SCHEMES\<close> (src/constants.ts).\<close>

fun baseHue :: "ColorScheme \<Rightarrow> real" where
  "baseHue Classic = 200"
| "baseHue Fire = 0"
| "baseHue Ocean = 190"
| "baseHue Purple = 280"
| "baseHue Matrix = 120"
| "baseHue Sunset = 330"
| "baseHue Psychedelic = 60"

text \<open>
  \<^verbatim>\<open>Math.round\<close> rounds to the nearest integer, halves upwards. The \<^verbatim>\<open>%\<close> operator
  is the remainder of the division truncated towards zero (the result has the sign of
  the dividend); the program only divides by the constants 360 and 1.
\<close>

definition js_round :: "real \<Rightarrow> real" where
  "js_round v = of_int \<lfloor>v + 1 / 2\<rfloor>"

definition js_rem :: "real \<Rightarrow> real \<Rightarrow> real" where
  "js_rem a b = a - b * of_int (if 0 \<le> a / b then \<lfloor>a / b\<rfloor> else \<lceil>a / b\<rceil>)"

text \<open>
  \<^verbatim>\<open>
  const hue2rgb = (p, q, t) => {
    if (t < 0) t += 1;
    if (t > 1) t -= 1;
    if (t < 1/6) return p + (q - p) * 6 * t;
    if (t < 1/2) return q;
    if (t < 2/3) return p + (q - p) * (2/3 - t) * 6;
    return p;
  };
  \<close>
\<close>

definition hue2rgb :: "real \<Rightarrow> real \<Rightarrow> real \<Rightarrow> real" where
  "hue2rgb p q t0 =
     (let t1 = (if t0 < 0 then t0 + 1 else t0);
          t = (if t1 > 1 then t1 - 1 else t1)
      in if t < 1 / 6 then p + (q - p) * 6 * t
         else if t < 1 / 2 then q
         else if t < 2 / 3 then p + (q - p) * (2 / 3 - t) * 6
         else p)"

definition hslToRgb :: "real \<Rightarrow> real \<Rightarrow> real \<Rightarrow> real \<times> real \<times> real" where
  "hslToRgb h s l =
     (let (r, g, b) =
        (if s = 0 then (l, l, l)
         else
           let q = (if l < 0.5 then l * (1 + s) else l + s - l * s);
               p = 2 * l - q
           in (hue2rgb p q (h + 1 / 3), hue2rgb p q h, hue2rgb p q (h - 1 / 3)))
      in (js_round (r * 255), js_round (g * 255), js_round (b * 255)))"

text \<open>
  \<open>getColor iteration maxIter scheme now\<close>: \<open>now\<close> is the value \<^verbatim>\<open>Date.now()\<close>
  returns (milliseconds), read only in the \<^verbatim>\<open>'psychedelic'\<close> case. The result is a
  triple of numbers; the \<^verbatim>\<open>'fire'\<close> case does not round and the \<^verbatim>\<open>'matrix'\<close> case
  does not clamp, exactly as in the source.
\<close>

definition getColor :: "nat \<Rightarrow> nat \<Rightarrow> ColorScheme \<Rightarrow> real \<Rightarrow> real \<times> real \<times> real" where
  "getColor iteration maxIter scheme now =
     (if iteration = maxIter then (0, 0, 0)
      else
        let t = real iteration / real maxIter;
            hue = js_rem (baseHue scheme + t * 360) 360
        in case scheme of
             Matrix \<Rightarrow> (0, js_round (255 * t * 2), 0)
           | Fire \<Rightarrow> (min 255 (t * 510), min 255 (max 0 (t * 510 - 255)), 0)
           | Psychedelic \<Rightarrow> hslToRgb (js_rem (t * 5 + now / 10000) 1) 0.8 0.5
           | _ \<Rightarrow> hslToRgb (hue / 360) 0.7 (0.2 + t * 0.6))"

definition is_integer :: "real \<Rightarrow> bool" where
  "is_integer v = (of_int \<lfloor>v\<rfloor> = v)"

definition is_byte :: "real \<Rightarrow> bool" where
  "is_byte v = (is_integer v \<and> 0 \<le> v \<and> v \<le> 255)"

section \<open>Viewport, canvas and the pixel-to-plane map (src/types.ts, src/App.tsx)\<close>

record ViewState =
  centerX :: real
  centerY :: real
  zoom :: real
  maxIterations :: nat
  colorScheme :: ColorScheme

text \<open>
  The canvas element: its pixel size and the corner of its bounding rectangle in client
  coordinates (\<^verbatim>\<open>getBoundingClientRect()\<close>).
\<close>

record Canvas =
  width :: nat
  height :: nat
  rectLeft :: real
  rectTop :: real

definition defaultView :: ViewState where
  "defaultView = \<lparr>centerX = - 0.5, centerY = 0, zoom = 1, maxIterations = 120,
     colorScheme = Classic\<rparr>"

text \<open>
  The source writes the pixel-to-plane formula inline three times (draw, lines 113-114;
  the dive tick, lines 160-161; the click handler, lines 249-250), each time as
  \<^verbatim>\<open>
  aspectRatio = width / height;  scale = 3.5 / zoom;
  x0 = centerX + ((px - width / 2) * scale * aspectRatio) / width;
  y0 = centerY + ((py - height / 2) * scale) / height;
  \<close>
\<close>

definition planeX :: "Canvas \<Rightarrow> ViewState \<Rightarrow> real \<Rightarrow> real" where
  "planeX cv v px =
     (let aspectRatio = real (width cv) / real (height cv); scale = 3.5 / zoom v
      in centerX v + ((px - real (width cv) / 2) * scale * aspectRatio) / real (width cv))"

definition planeY :: "Canvas \<Rightarrow> ViewState \<Rightarrow> real \<Rightarrow> real" where
  "planeY cv v py =
     (let scale = 3.5 / zoom v
      in centerY v + ((py - real (height cv) / 2) * scale) / real (height cv))"

section \<open>Frame renderer (src/App.tsx, draw)\<close>

text \<open>
  \<^verbatim>\<open>imageData.data\<close> is a \<^verbatim>\<open>Uint8ClampedArray\<close> of \<open>width * height * 4\<close> zero bytes.
  Storing a number converts it with the language's clamping conversion: clamp to
  \<open>[0, 255]\<close>, then round to the nearest integer, ties to even. A store outside the
  array is ignored, which is what \<open>list_update\<close> does.
\<close>

definition toUint8Clamp :: "real \<Rightarrow> nat" where
  "toUint8Clamp v =
     (let clamped = min (max v 0) 255; f = \<lfloor>clamped\<rfloor>
      in nat (if clamped < of_int f + 0.5 then f
              else if clamped > of_int f + 0.5 then f + 1
              else if even f then f else f + 1))"

text \<open>
  One pass of the inner loop body, for pixel \<open>(px, py)\<close>; \<open>clock px py\<close> is what
  \<^verbatim>\<open>Date.now()\<close> returns while that pixel is coloured.
\<close>

definition pixelColor :: "Canvas \<Rightarrow> ViewState \<Rightarrow> (nat \<Rightarrow> nat \<Rightarrow> real) \<Rightarrow> nat \<Rightarrow> nat \<Rightarrow> real \<times> real \<times> real" where
  "pixelColor cv v clock px py =
     (let x0 = planeX cv v (real px); y0 = planeY cv v (real py);
          iteration = iterate x0 y0 (maxIterations v)
      in getColor iteration (maxIterations v) (colorScheme v) (clock px py))"

definition drawPixel :: "Canvas \<Rightarrow> ViewState \<Rightarrow> (nat \<Rightarrow> nat \<Rightarrow> real) \<Rightarrow> nat \<Rightarrow> nat \<Rightarrow> nat list \<Rightarrow> nat list" where
  "drawPixel cv v clock px py data =
     (let pixelIndex = (py * width cv + px) * 4;
          (r, g, b) = pixelColor cv v clock px py
      in data[pixelIndex := toUint8Clamp r,
              pixelIndex + 1 := toUint8Clamp g,
              pixelIndex + 2 := toUint8Clamp b,
              pixelIndex + 3 := 255])"

definition draw :: "Canvas \<Rightarrow> ViewState \<Rightarrow> (nat \<Rightarrow> nat \<Rightarrow> real) \<Rightarrow> nat list" where
  "draw cv v clock =
     fold (\<lambda>px data. fold (\<lambda>py. drawPixel cv v clock px py) [0..<height cv] data)
       [0..<width cv] (replicate (width cv * height cv * 4) 0)"

section \<open>Navigation controller (src/App.tsx)\<close>

text \<open>
  The component's state that navigation reads or writes: the view, the dive flag, the
  dive target in canvas pixels, and the three drag refs. The \<open>setView\<close> updaters of the
  source read some fields from the render's \<^verbatim>\<open>view\<close> and some from the updater's
  \<^verbatim>\<open>prev\<close>. The model handles events one at a time, each after the re-render the
  previous one caused. The mouse handlers and the buttons are bound anew on every
  render, so for them both are the current view. The dive interval is not: its callback
  keeps the \<^verbatim>\<open>view\<close> of the render in which the continuous-zoom effect last ran, and
  the effect runs only when one of its dependencies
  \<^verbatim>\<open>[isContinuousZoom, zoomTarget, view.zoom]\<close> has changed. \<open>intervalView\<close> is that
  captured view.
\<close>

record AppState =
  view :: ViewState
  isContinuousZoom :: bool
  zoomTargetX :: real
  zoomTargetY :: real
  isDragging :: bool
  lastMouseX :: real
  lastMouseY :: real
  dragDistance :: real
  intervalView :: ViewState

record MouseEvent =
  button :: nat
  clientX :: real
  clientY :: real
  ctrlKey :: bool
  metaKey :: bool

definition initialState :: AppState where
  "initialState = \<lparr>view = defaultView, isContinuousZoom = False, zoomTargetX = 0,
     zoomTargetY = 0, isDragging = False, lastMouseX = 0, lastMouseY = 0, dragDistance = 0,
     intervalView = defaultView\<rparr>"

text \<open>The tables of src/constants.ts that the jump buttons read.\<close>

record Location =
  loc_name :: string
  loc_x :: real
  loc_y :: real
  loc_z :: real

definition INTERESTING_LOCATIONS :: "Location list" where
  "INTERESTING_LOCATIONS =
     [\<lparr>loc_name = ''The Root'', loc_x = - 0.5, loc_y = 0, loc_z = 1\<rparr>,
      \<lparr>loc_name = ''Seahorse Valley'', loc_x = - 0.7463, loc_y = 0.1102, loc_z = 100\<rparr>,
      \<lparr>loc_name = ''Spiral Galaxy'', loc_x = - 0.74364, loc_y = 0.13182, loc_z = 2000\<rparr>,
      \<lparr>loc_name = ''Elephant Valley'', loc_x = - 0.1011, loc_y = 0.9563, loc_z = 100\<rparr>,
      \<lparr>loc_name = ''Triple Spiral'', loc_x = 0.285, loc_y = 0.01, loc_z = 500\<rparr>,
      \<lparr>loc_name = ''The Satellite'', loc_x = - 0.7269, loc_y = 0.1889, loc_z = 5000\<rparr>]"

record DailyChallenge =
  dc_x :: real
  dc_y :: real
  dc_zoom :: real
  dc_pattern :: string
  dc_day :: nat

definition DAILY_CHALLENGES :: "DailyChallenge list" where
  "DAILY_CHALLENGES =
     [\<lparr>dc_x = - 0.7463, dc_y = 0.1102, dc_zoom = 100, dc_pattern = ''seahorse'', dc_day = 0\<rparr>,
      \<lparr>dc_x = - 1.768, dc_y = 0.001, dc_zoom = 1000, dc_pattern = ''miniMandelbrot'', dc_day = 1\<rparr>,
      \<lparr>dc_x = - 0.101, dc_y = 0.956, dc_zoom = 150, dc_pattern = ''elephant'', dc_day = 2\<rparr>,
      \<lparr>dc_x = - 0.7436, dc_y = 0.1318, dc_zoom = 5000, dc_pattern = ''spiral'', dc_day = 3\<rparr>,
      \<lparr>dc_x = 0.285, dc_y = 0.01, dc_zoom = 800, dc_pattern = ''dragon'', dc_day = 4\<rparr>]"

text \<open>
  \<^verbatim>\<open>setDailyChallenge(DAILY_CHALLENGES[today % DAILY_CHALLENGES.length])\<close> with
  \<^verbatim>\<open>today = new Date().getDay()\<close>.
\<close>

definition dailyChallengeFor :: "nat \<Rightarrow> DailyChallenge" where
  "dailyChallengeFor today = DAILY_CHALLENGES ! (today mod length DAILY_CHALLENGES)"

text \<open>
  The interval callback of the continuous-zoom effect (lines 153-169). The target is
  computed from the captured \<^verbatim>\<open>view\<close> (\<^verbatim>\<open>view.centerX\<close>, \<^verbatim>\<open>view.centerY\<close>,
  \<^verbatim>\<open>view.zoom\<close>), the step is taken from the updater's \<^verbatim>\<open>prev\<close>, the current view.
  The target position \<^verbatim>\<open>zoomTarget\<close> is a dependency of the effect, so the callback
  always has the current one.
\<close>

definition diveTick :: "Canvas \<Rightarrow> AppState \<Rightarrow> AppState" where
  "diveTick cv st =
     (if isContinuousZoom st then
        let targetX = planeX cv (intervalView st) (zoomTargetX st);
            targetY = planeY cv (intervalView st) (zoomTargetY st);
            prev = view st
        in st\<lparr>view := prev\<lparr>centerX := centerX prev + (targetX - centerX prev) * 0.2,
                              centerY := centerY prev + (targetY - centerY prev) * 0.2,
                              zoom := zoom prev * 1.05\<rparr>\<rparr>
      else st)"

text \<open>\<^verbatim>\<open>handleMouseDown\<close> (lines 179-185).\<close>

definition handleMouseDown :: "MouseEvent \<Rightarrow> AppState \<Rightarrow> AppState" where
  "handleMouseDown e st =
     (if button e \<noteq> 0 then st
      else st\<lparr>isDragging := True, lastMouseX := clientX e, lastMouseY := clientY e,
              dragDistance := 0\<rparr>)"

text \<open>\<^verbatim>\<open>handleMouseMove\<close> (lines 187-220): retargets the dive, and pans while dragging.\<close>

definition handleMouseMove :: "Canvas \<Rightarrow> MouseEvent \<Rightarrow> AppState \<Rightarrow> AppState" where
  "handleMouseMove cv e st =
     (let currentX = clientX e - rectLeft cv;
          currentY = clientY e - rectTop cv;
          st1 = (if isContinuousZoom st
                 then st\<lparr>zoomTargetX := currentX, zoomTargetY := currentY\<rparr> else st)
      in if isDragging st then
           let dx = clientX e - lastMouseX st;
               dy = clientY e - lastMouseY st;
               aspectRatio = real (width cv) / real (height cv);
               scale = 3.5 / zoom (view st);
               fractalDx = (dx * scale * aspectRatio) / real (width cv);
               fractalDy = (dy * scale) / real (height cv);
               prev = view st
           in st1\<lparr>dragDistance := dragDistance st + sqrt (dx * dx + dy * dy),
                   view := prev\<lparr>centerX := centerX prev - fractalDx,
                                  centerY := centerY prev - fractalDy\<rparr>,
                   lastMouseX := clientX e, lastMouseY := clientY e\<rparr>
         else st1)"

text \<open>
  \<^verbatim>\<open>handleCanvasClick\<close> (lines 233-258): with Ctrl or Meta held it toggles the dive and
  leaves the view alone; otherwise it is the click-zoom.
\<close>

definition handleCanvasClick :: "Canvas \<Rightarrow> MouseEvent \<Rightarrow> AppState \<Rightarrow> AppState" where
  "handleCanvasClick cv e st =
     (if ctrlKey e \<or> metaKey e then st\<lparr>isContinuousZoom := \<not> isContinuousZoom st\<rparr>
      else
        let px = clientX e - rectLeft cv;
            py = clientY e - rectTop cv;
            newX = planeX cv (view st) px;
            newY = planeY cv (view st) py;
            prev = view st
        in st\<lparr>view := prev\<lparr>centerX := newX, centerY := newY, zoom := zoom prev * 2\<rparr>\<rparr>)"

text \<open>\<^verbatim>\<open>handleMouseUp\<close> (lines 222-231); also bound to \<^verbatim>\<open>onMouseLeave\<close>.\<close>

definition handleMouseUp :: "Canvas \<Rightarrow> MouseEvent \<Rightarrow> AppState \<Rightarrow> AppState" where
  "handleMouseUp cv e st =
     (if isDragging st then
        (if dragDistance st < 5 then handleCanvasClick cv e st else st)\<lparr>isDragging := False\<rparr>
      else st)"

text \<open>
  Everything that calls \<open>setView\<close> or a mouse handler. \<open>JumpLandmark idx\<close> is the button
  rendered for entry \<open>idx\<close> of \<open>INTERESTING_LOCATIONS\<close> (there is none past the end of the
  table); \<open>JumpDaily today\<close> is the daily-quest button on weekday \<open>today\<close>;
  \<open>SetMaxIterations n\<close> is the precision slider delivering \<open>parseInt(e.target.value) = n\<close>.
\<close>

datatype Command =
    ZoomIn
  | ZoomOut
  | Reset
  | ToggleDive
  | DiveTick
  | SetMaxIterations nat
  | SetColorScheme ColorScheme
  | JumpLandmark nat
  | JumpDaily nat
  | MouseDown MouseEvent
  | MouseMove MouseEvent
  | MouseUp MouseEvent

text \<open>
  The zoom-out button computes \<^verbatim>\<open>prev.zoom / 2\<close> (line 544). Halving a double is exact
  as long as the quotient is a normal number (at least \<open>1 / 2 ^ 1022\<close> in magnitude); a
  smaller quotient is rounded to the nearest multiple of \<open>1 / 2 ^ 1074\<close>, the smallest
  positive double, ties going to the even multiple. Halving cannot overflow.
  \<open>normalExp\<close> and \<open>subnormalExp\<close> name the two exponents.
\<close>

definition roundTiesEven :: "real \<Rightarrow> int" where
  "roundTiesEven v =
     (let f = \<lfloor>v\<rfloor>
      in if v < of_int f + 1 / 2 then f
         else if of_int f + 1 / 2 < v then f + 1
         else if even f then f else f + 1)"

definition normalExp :: nat where
  "normalExp = 1022"

definition subnormalExp :: nat where
  "subnormalExp = 1074"

definition halveDouble :: "real \<Rightarrow> real" where
  "halveDouble z =
     (if 1 / 2 ^ normalExp \<le> \<bar>z / 2\<bar> then z / 2
      else of_int (roundTiesEven (z / 2 * 2 ^ subnormalExp)) / 2 ^ subnormalExp)"

text \<open>
  What each command does to the state (\<open>handleCommand\<close>), before the effects of the
  re-render it causes.
\<close>

fun handleCommand :: "Canvas \<Rightarrow> Command \<Rightarrow> AppState \<Rightarrow> AppState" where
  "handleCommand cv ZoomIn st = st\<lparr>view := (view st)\<lparr>zoom := zoom (view st) * 2\<rparr>\<rparr>"
| "handleCommand cv ZoomOut st = st\<lparr>view := (view st)\<lparr>zoom := halveDouble (zoom (view st))\<rparr>\<rparr>"
| "handleCommand cv Reset st =
     st\<lparr>view := \<lparr>centerX = - 0.5, centerY = 0, zoom = 1, maxIterations = 120,
                   colorScheme = Classic\<rparr>\<rparr>"
| "handleCommand cv ToggleDive st = st\<lparr>isContinuousZoom := \<not> isContinuousZoom st\<rparr>"
| "handleCommand cv DiveTick st = diveTick cv st"
| "handleCommand cv (SetMaxIterations n) st = st\<lparr>view := (view st)\<lparr>maxIterations := n\<rparr>\<rparr>"
| "handleCommand cv (SetColorScheme scheme) st = st\<lparr>view := (view st)\<lparr>colorScheme := scheme\<rparr>\<rparr>"
| "handleCommand cv (JumpLandmark idx) st =
     (if idx < length INTERESTING_LOCATIONS then
        let loc = INTERESTING_LOCATIONS ! idx
        in st\<lparr>view := (view st)\<lparr>centerX := loc_x loc, centerY := loc_y loc, zoom := loc_z loc\<rparr>\<rparr>
      else st)"
| "handleCommand cv (JumpDaily today) st =
     (let dailyChallenge = dailyChallengeFor today
      in st\<lparr>view := (view st)\<lparr>centerX := dc_x dailyChallenge, centerY := dc_y dailyChallenge,
                                 zoom := dc_zoom dailyChallenge\<rparr>\<rparr>)"
| "handleCommand cv (MouseDown e) st = handleMouseDown e st"
| "handleCommand cv (MouseMove e) st = handleMouseMove cv e st"
| "handleCommand cv (MouseUp e) st = handleMouseUp cv e st"

text \<open>
  The continuous-zoom effect (lines 151-176) has the dependencies
  \<^verbatim>\<open>[isContinuousZoom, zoomTarget, view.zoom]\<close>. After the re-render a command causes,
  it runs again, and the new interval captures the view of that render, exactly when
  one of them changed: the flag, the zoom, or \<^verbatim>\<open>zoomTarget\<close>, which
  \<^verbatim>\<open>handleMouseMove\<close> replaces by a new object on every move made while diving.
\<close>

fun setsZoomTarget :: "Command \<Rightarrow> AppState \<Rightarrow> bool" where
  "setsZoomTarget (MouseMove e) old = isContinuousZoom old"
| "setsZoomTarget _ old = False"

definition depsUnchanged :: "Command \<Rightarrow> AppState \<Rightarrow> AppState \<Rightarrow> bool" where
  "depsUnchanged c old new =
     (isContinuousZoom new = isContinuousZoom old \<and> \<not> setsZoomTarget c old
      \<and> zoom (view new) = zoom (view old))"

definition step :: "Canvas \<Rightarrow> Command \<Rightarrow> AppState \<Rightarrow> AppState" where
  "step cv c st =
     (let new = handleCommand cv c st
      in if depsUnchanged c st new then new else new\<lparr>intervalView := view new\<rparr>)"

definition run :: "Canvas \<Rightarrow> Command list \<Rightarrow> AppState \<Rightarrow> AppState" where
  "run cv cmds st = fold (step cv) cmds st"

text \<open>
  The precision slider is \<^verbatim>\<open><input type="range" min="50" max="1000" step="50">\<close>
  (lines 350-355): these are the values it can deliver. Every other command is defined
  for all of its arguments.
\<close>

fun commandOk :: "Command \<Rightarrow> bool" where
  "commandOk (SetMaxIterations n) = (50 \<le> n \<and> n \<le> 1000 \<and> n mod 50 = 0)"
| "commandOk _ = True"

definition viewInvariant :: "ViewState \<Rightarrow> bool" where
  "viewInvariant v = (0 < zoom v \<and> 1 \<le> maxIterations v)"

text \<open>What is left of it when the zoom may have underflowed to zero.\<close>

definition weakInvariant :: "ViewState \<Rightarrow> bool" where
  "weakInvariant v = (0 \<le> zoom v \<and> 1 \<le> maxIterations v)"

section \<open>Auxiliary definitions for the statements\<close>

text \<open>The four bytes \<open>drawPixel\<close> stores for one pixel, in buffer order.\<close>

definition pixelBytes :: "Canvas \<Rightarrow> ViewState \<Rightarrow> (nat \<Rightarrow> nat \<Rightarrow> real) \<Rightarrow> nat \<Rightarrow> nat \<Rightarrow> nat list" where
  "pixelBytes cv v clock px py =
     (case pixelColor cv v clock px py of
        (r, g, b) \<Rightarrow> [toUint8Clamp r, toUint8Clamp g, toUint8Clamp b, 255])"

text \<open>An 800 by 600 canvas in the top-left corner of the client area.\<close>

definition canvas800x600 :: Canvas where
  "canvas800x600 = \<lparr>width = 800, height = 600, rectLeft = 0, rectTop = 0\<rparr>"

text \<open>A plain left click on the centre pixel of that canvas.\<close>

definition centerClick :: MouseEvent where
  "centerClick = \<lparr>button = 0, clientX = 400, clientY = 300, ctrlKey = False, metaKey = False\<rparr>"

text \<open>Diving with the target on the exact centre pixel of that canvas.\<close>

definition divingAtCenter :: AppState where
  "divingAtCenter = initialState\<lparr>isContinuousZoom := True, zoomTargetX := 400, zoomTargetY := 300\<rparr>"

text \<open>
  Start the dive, move the pointer to the centre pixel, jump to Seahorse Valley and
  then to Elephant Valley before the next tick. Both landmarks have zoom 100, so the
  second jump changes the centre alone and the interval keeps the Seahorse Valley view.
\<close>

definition staleDive :: "Command list" where
  "staleDive = [ToggleDive, MouseMove centerClick, JumpLandmark 1, JumpLandmark 3]"

definition staleDiveState :: AppState where
  "staleDiveState = run canvas800x600 staleDive initialState"

text \<open>A drag in progress that has already moved seven pixels.\<close>

definition longDrag :: AppState where
  "longDrag = initialState\<lparr>isDragging := True, dragDistance := 7\<rparr>"

section \<open>Properties of the escape-time loop\<close>

lemma mandelLoop_step:
  "x * x + y * y \<le> 4 \<Longrightarrow> iteration < maxIter \<Longrightarrow>
   mandelLoop x0 y0 maxIter x y iteration
     = mandelLoop x0 y0 maxIter (x * x - y * y + x0) (2 * x * y + y0) (Suc iteration)"
  by (subst mandelLoop.simps) simp

lemma mandelLoop_stop:
  "\<not> (x * x + y * y \<le> 4 \<and> iteration < maxIter) \<Longrightarrow>
   mandelLoop x0 y0 maxIter x y iteration = iteration"
  by (subst mandelLoop.simps) (rule if_not_P)

lemma mandelLoop_lower: "iteration \<le> mandelLoop x0 y0 maxIter x y iteration"
proof (induction x0 y0 maxIter x y iteration rule: mandelLoop.induct)
  case (1 x0 y0 maxIter x y iteration)
  show ?case
  proof (cases "x * x + y * y \<le> 4 \<and> iteration < maxIter")
    case True
    then have "Suc iteration
        \<le> mandelLoop x0 y0 maxIter (x * x - y * y + x0) (2 * x * y + y0) (Suc iteration)"
      using 1 by simp
    with True show ?thesis by (simp add: mandelLoop_step)
  next
    case False
    then have "mandelLoop x0 y0 maxIter x y iteration = iteration"
      by (rule mandelLoop_stop)
    then show ?thesis by simp
  qed
qed

lemma mandelLoop_upper:
  "mandelLoop x0 y0 maxIter x y iteration \<le> max iteration maxIter"
proof (induction x0 y0 maxIter x y iteration rule: mandelLoop.induct)
  case (1 x0 y0 maxIter x y iteration)
  show ?case
  proof (cases "x * x + y * y \<le> 4 \<and> iteration < maxIter")
    case True
    then have "mandelLoop x0 y0 maxIter (x * x - y * y + x0) (2 * x * y + y0) (Suc iteration)
        \<le> max (Suc iteration) maxIter"
      using 1 by simp
    with True show ?thesis by (simp add: mandelLoop_step)
  next
    case False
    then have "mandelLoop x0 y0 maxIter x y iteration = iteration"
      by (rule mandelLoop_stop)
    then show ?thesis by simp
  qed
qed

lemma mandelLoop_mono:
  "n \<le> n' \<Longrightarrow> mandelLoop x0 y0 n x y iteration \<le> mandelLoop x0 y0 n' x y iteration"
proof (induction x0 y0 n x y iteration rule: mandelLoop.induct)
  case (1 x0 y0 n x y iteration)
  show ?case
  proof (cases "x * x + y * y \<le> 4 \<and> iteration < n")
    case True
    then have "mandelLoop x0 y0 n (x * x - y * y + x0) (2 * x * y + y0) (Suc iteration)
        \<le> mandelLoop x0 y0 n' (x * x - y * y + x0) (2 * x * y + y0) (Suc iteration)"
      using 1 by simp
    moreover from True have "mandelLoop x0 y0 n x y iteration
        = mandelLoop x0 y0 n (x * x - y * y + x0) (2 * x * y + y0) (Suc iteration)"
      by (simp add: mandelLoop_step)
    moreover from True \<open>n \<le> n'\<close> have "mandelLoop x0 y0 n' x y iteration
        = mandelLoop x0 y0 n' (x * x - y * y + x0) (2 * x * y + y0) (Suc iteration)"
      by (simp add: mandelLoop_step)
    ultimately show ?thesis by simp
  next
    case False
    then have "mandelLoop x0 y0 n x y iteration = iteration"
      by (rule mandelLoop_stop)
    then show ?thesis by (simp add: mandelLoop_lower)
  qed
qed

lemma iterate_first_step:
  "1 \<le> maxIter \<Longrightarrow> iterate x0 y0 maxIter = mandelLoop x0 y0 maxIter x0 y0 1"
  unfolding iterate_def by (simp add: mandelLoop_step)

text \<open>
  Claim C10. For every point and every cap of at least 1 the loop body runs at least
  once (the first test is \<open>0 \<le> 4\<close> and \<open>0 < maxIter\<close>), so the returned count
  lies between 1 and the cap and is never 0.
\<close>

theorem iterate_at_least_one:
  assumes "1 \<le> maxIter"
  shows "1 \<le> iterate x0 y0 maxIter \<and> iterate x0 y0 maxIter \<le> maxIter
    \<and> iterate x0 y0 maxIter \<noteq> 0"
proof -
  have eq: "iterate x0 y0 maxIter = mandelLoop x0 y0 maxIter x0 y0 1"
    using assms by (rule iterate_first_step)
  have lo: "1 \<le> mandelLoop x0 y0 maxIter x0 y0 1"
    by (rule mandelLoop_lower)
  have "mandelLoop x0 y0 maxIter x0 y0 1 \<le> max 1 maxIter"
    by (rule mandelLoop_upper)
  with assms have hi: "mandelLoop x0 y0 maxIter x0 y0 1 \<le> maxIter"
    by simp
  from eq lo hi show ?thesis by simp
qed

theorem iterate_at_least_one_witness:
  "(1::nat) \<le> 7 \<and> 1 \<le> iterate 3 3 7 \<and> iterate 3 3 7 \<le> 7 \<and> iterate 3 3 7 \<noteq> 0"
  using iterate_at_least_one [of 7 3 3] by simp

text \<open>
  Claim C1 as stated fails: a point outside the circle of radius 2 is not detected "on
  the first check", because the first check tests \<open>z = 0\<close>, not \<open>c\<close>. At \<open>(3, 3)\<close>
  the loop runs its body once and returns 1.
\<close>

theorem iterate_outside_counterexample:
  "(3::real) * 3 + 3 * 3 > 4 \<and> (1::nat) \<le> 5 \<and> iterate 3 3 5 = 1 \<and> iterate 3 3 5 \<noteq> 0"
proof -
  have "iterate 3 3 5 = mandelLoop 3 3 5 3 3 1"
    by (rule iterate_first_step) simp
  also have "\<dots> = 1"
    by (rule mandelLoop_stop) simp
  finally show ?thesis by simp
qed

lemma mandelLoopFl_step:
  "fl (fl (x * x) + fl (y * y)) \<le> 4 \<Longrightarrow> iteration < maxIter \<Longrightarrow>
   mandelLoopFl fl x0 y0 maxIter x y iteration
     = mandelLoopFl fl x0 y0 maxIter (fl (fl (fl (x * x) - fl (y * y)) + x0))
         (fl (fl (fl (2 * x) * y) + y0)) (Suc iteration)"
  by (subst mandelLoopFl.simps) simp

lemma mandelLoopFl_stop:
  "\<not> (fl (fl (x * x) + fl (y * y)) \<le> 4 \<and> iteration < maxIter) \<Longrightarrow>
   mandelLoopFl fl x0 y0 maxIter x y iteration = iteration"
  by (subst mandelLoopFl.simps) (rule if_not_P)

lemma mandelLoopFl_exact:
  "mandelLoopFl (\<lambda>v. v) x0 y0 maxIter x y iteration = mandelLoop x0 y0 maxIter x y iteration"
proof (induction x0 y0 maxIter x y iteration rule: mandelLoop.induct)
  case (1 x0 y0 maxIter x y iteration)
  show ?case
  proof (cases "x * x + y * y \<le> 4 \<and> iteration < maxIter")
    case True
    then have "mandelLoopFl (\<lambda>v. v) x0 y0 maxIter (x * x - y * y + x0) (2 * x * y + y0) (Suc iteration)
        = mandelLoop x0 y0 maxIter (x * x - y * y + x0) (2 * x * y + y0) (Suc iteration)"
      using 1 by simp
    with True show ?thesis
      by (simp add: mandelLoopFl_step mandelLoop_step)
  next
    case False
    then have "mandelLoopFl (\<lambda>v. v) x0 y0 maxIter x y iteration = iteration"
      by (intro mandelLoopFl_stop) simp
    moreover from False have "mandelLoop x0 y0 maxIter x y iteration = iteration"
      by (rule mandelLoop_stop)
    ultimately show ?thesis by simp
  qed
qed

lemma iterateFl_exact: "iterateFl (\<lambda>v. v) x0 y0 maxIter = iterate x0 y0 maxIter"
  by (simp add: iterateFl_def iterate_def mandelLoopFl_exact)

lemma iterateFl_first_step:
  assumes "fl 0 = 0" and "fl x0 = x0" and "fl y0 = y0" and "1 \<le> maxIter"
  shows "iterateFl fl x0 y0 maxIter = mandelLoopFl fl x0 y0 maxIter x0 y0 1"
proof -
  have "mandelLoopFl fl x0 y0 maxIter 0 0 0
      = mandelLoopFl fl x0 y0 maxIter (fl (fl (fl (0 * 0) - fl (0 * 0)) + x0))
          (fl (fl (fl (2 * 0) * 0) + y0)) (Suc 0)"
    using assms(1,4) by (intro mandelLoopFl_step) simp_all
  then show ?thesis
    using assms(1-3) by (simp add: iterateFl_def)
qed

text \<open>
  Claim C1, amended. Let \<open>fl\<close> be the rounding of the program's arithmetic and
  \<open>(x0, y0)\<close> a point it can hold (\<open>fl\<close> leaves 0, \<open>x0\<close> and \<open>y0\<close> as they are). If
  the squared modulus as the loop computes it, \<open>fl (fl (x0 * x0) + fl (y0 * y0))\<close>,
  exceeds 4, then for every cap of at least 1 the loop returns 1: the body runs once
  from \<open>z = 0\<close>, which moves \<open>z\<close> to \<open>c\<close>, and the second test fails. At \<open>(3, 3)\<close> the
  computed value is 18, so the result is 1 for every cap. A point whose exact squared
  modulus exceeds 4 by less than the rounding error (such as \<open>(2, 1 / 2 ^ 30)\<close>, where
  the computed value is 4) is not covered.
\<close>

theorem iterateFl_outside_is_one:
  assumes "fl 0 = 0" and "fl x0 = x0" and "fl y0 = y0"
    and "fl (fl (x0 * x0) + fl (y0 * y0)) > 4" and "1 \<le> maxIter"
  shows "iterateFl fl x0 y0 maxIter = 1"
proof -
  have "iterateFl fl x0 y0 maxIter = mandelLoopFl fl x0 y0 maxIter x0 y0 1"
    using assms(1,2,3,5) by (rule iterateFl_first_step)
  also have "\<dots> = 1"
    using assms(4) by (intro mandelLoopFl_stop) simp
  finally show ?thesis .
qed

theorem iterateFl_outside_is_one_witness:
  "(4::real) < 3 * 3 + 3 * 3 \<and> (1::nat) \<le> 500
    \<and> iterateFl (\<lambda>v. v) 3 3 500 = 1
    \<and> iterateFl (\<lambda>v. of_int \<lfloor>v + 1 / 2\<rfloor>) 3 1 7 = 1"
  using iterateFl_outside_is_one [of "\<lambda>v. v" 3 3 500]
    iterateFl_outside_is_one [of "\<lambda>v. of_int \<lfloor>v + 1 / 2\<rfloor>" 3 1 7]
  by simp

text \<open>
  Claim C7. For a fixed point the returned count is non-decreasing in the cap, and it
  never exceeds the cap it was computed with.
\<close>

theorem iterate_monotone_bounded:
  "(n \<le> n' \<longrightarrow> iterate x0 y0 n \<le> iterate x0 y0 n') \<and> iterate x0 y0 n' \<le> n'"
proof
  show "n \<le> n' \<longrightarrow> iterate x0 y0 n \<le> iterate x0 y0 n'"
    unfolding iterate_def by (simp add: mandelLoop_mono)
  have "mandelLoop x0 y0 n' 0 0 0 \<le> max 0 n'"
    by (rule mandelLoop_upper)
  then show "iterate x0 y0 n' \<le> n'"
    unfolding iterate_def by simp
qed

theorem iterate_monotone_bounded_witness:
  "(2::nat) \<le> 9 \<and> iterate 1 0 2 = 2 \<and> iterate 1 0 9 = 3
    \<and> iterate 1 0 2 \<le> iterate 1 0 9 \<and> iterate 1 0 9 \<le> 9"
proof -
  have "iterate 1 0 2 = 2" and "iterate 1 0 9 = 3"
    by code_simp+
  then show ?thesis
    using iterate_monotone_bounded [of 2 9 1 0] by simp
qed

section \<open>Properties of the color mapper\<close>

lemma js_round_unit_byte:
  assumes "0 \<le> r" and "r \<le> 1"
  shows "is_byte (js_round (r * 255))"
proof -
  have "0 \<le> r * 255 + 1 / 2" using assms by simp
  then have lo: "0 \<le> \<lfloor>r * 255 + 1 / 2\<rfloor>" by simp
  have "r * 255 + 1 / 2 < 256" using assms by simp
  then have "\<lfloor>r * 255 + 1 / 2\<rfloor> < 256" by (simp add: floor_less_iff)
  then have hi: "\<lfloor>r * 255 + 1 / 2\<rfloor> \<le> 255" by simp
  from lo hi show ?thesis
    by (simp add: is_byte_def js_round_def is_integer_def)
qed

lemma js_rem_range:
  assumes "0 \<le> a" and "0 < b"
  shows "0 \<le> js_rem a b \<and> js_rem a b < b"
proof -
  have nn: "0 \<le> a / b" using assms by simp
  have eq: "js_rem a b = a - of_int \<lfloor>a / b\<rfloor> * b"
    using nn by (simp add: js_rem_def)
  have lo: "of_int \<lfloor>a / b\<rfloor> * b \<le> a"
    by (subst pos_le_divide_eq [symmetric]) (simp_all add: assms(2))
  have "a / b < of_int \<lfloor>a / b\<rfloor> + 1"
    by linarith
  then have "a < (of_int \<lfloor>a / b\<rfloor> + 1) * b"
    by (simp only: pos_divide_less_eq [OF assms(2)])
  then have hi: "a < of_int \<lfloor>a / b\<rfloor> * b + b"
    by (simp only: distrib_right mult_1)
  from lo hi eq show ?thesis by linarith
qed

lemma hue2rgb_between:
  assumes "p \<le> q" and "- 1 \<le> t0" and "t0 \<le> 2"
  shows "p \<le> hue2rgb p q t0 \<and> hue2rgb p q t0 \<le> q"
proof -
  define t1 where "t1 = (if t0 < 0 then t0 + 1 else t0)"
  define t where "t = (if t1 > 1 then t1 - 1 else t1)"
  have t: "0 \<le> t" "t \<le> 1"
    using assms(2,3) by (auto simp: t_def t1_def)
  have d: "0 \<le> q - p" using assms(1) by simp
  have val: "hue2rgb p q t0 =
     (if t < 1 / 6 then p + (q - p) * (6 * t)
      else if t < 1 / 2 then q
      else if t < 2 / 3 then p + (q - p) * ((2 / 3 - t) * 6)
      else p)"
    by (simp only: hue2rgb_def t_def t1_def Let_def mult.assoc)
  show ?thesis
  proof (cases "t < 1 / 6")
    case True
    define e where "e = (q - p) * (6 * t)"
    have "0 \<le> e"
      unfolding e_def using d t(1) by (intro mult_nonneg_nonneg) simp_all
    moreover have "e \<le> (q - p) * 1"
      unfolding e_def using d True by (intro mult_left_mono) simp_all
    moreover have "hue2rgb p q t0 = p + e"
      unfolding e_def using True by (simp only: val if_True)
    ultimately show ?thesis by simp
  next
    case F1: False
    show ?thesis
    proof (cases "t < 1 / 2")
      case True
      have "hue2rgb p q t0 = q"
        using F1 True by (simp only: val if_True if_False)
      with assms(1) show ?thesis by simp
    next
      case F2: False
      show ?thesis
      proof (cases "t < 2 / 3")
        case True
        define e where "e = (q - p) * ((2 / 3 - t) * 6)"
        have "0 \<le> e"
          unfolding e_def using d True by (intro mult_nonneg_nonneg) simp_all
        moreover have "e \<le> (q - p) * 1"
          unfolding e_def using d F2 by (intro mult_left_mono) simp_all
        moreover have "hue2rgb p q t0 = p + e"
          unfolding e_def using F1 F2 True by (simp only: val if_True if_False)
        ultimately show ?thesis by simp
      next
        case False
        have "hue2rgb p q t0 = p"
          using F1 F2 False by (simp only: val if_False)
        with assms(1) show ?thesis by simp
      qed
    qed
  qed
qed

lemma hsl_pq_bounds:
  assumes "0 \<le> (s::real)" and "s \<le> 1" and "0 \<le> (l::real)" and "l \<le> 1"
  defines "q \<equiv> (if l < 0.5 then l * (1 + s) else l + s - l * s)"
  shows "0 \<le> 2 * l - q \<and> 2 * l - q \<le> q \<and> q \<le> 1"
proof (cases "l < 0.5")
  case True
  define e where "e = l * s"
  have "0 \<le> e" unfolding e_def using assms(3,1) by (rule mult_nonneg_nonneg)
  moreover have "e \<le> l * 1" unfolding e_def using assms(2,3) by (rule mult_left_mono)
  moreover have "q = l + e" unfolding q_def e_def using True by (simp add: distrib_left)
  ultimately show ?thesis using True by simp
next
  case False
  define e where "e = s * (1 - l)"
  have "0 \<le> e" unfolding e_def using assms(1,4) by (intro mult_nonneg_nonneg) simp_all
  moreover have "e \<le> 1 * (1 - l)" unfolding e_def using assms(2,4) by (intro mult_right_mono) simp_all
  moreover have "q = l + e" unfolding q_def e_def using False by (simp add: algebra_simps)
  ultimately show ?thesis using False by simp
qed

lemma hslToRgb_bytes:
  assumes "0 \<le> h" and "h \<le> 1" and "0 \<le> s" and "s \<le> 1" and "0 \<le> l" and "l \<le> 1"
  shows "is_byte (fst (hslToRgb h s l)) \<and> is_byte (fst (snd (hslToRgb h s l)))
    \<and> is_byte (snd (snd (hslToRgb h s l)))"
proof (cases "s = 0")
  case True
  then show ?thesis
    using assms(5,6) by (simp add: hslToRgb_def js_round_unit_byte)
next
  case False
  define q where "q = (if l < 0.5 then l * (1 + s) else l + s - l * s)"
  define p where "p = 2 * l - q"
  have pq: "0 \<le> p" "p \<le> q" "q \<le> 1"
    using hsl_pq_bounds [OF assms(3-6)] by (simp_all add: p_def q_def)
  have val: "hslToRgb h s l = (js_round (hue2rgb p q (h + 1 / 3) * 255),
      js_round (hue2rgb p q h * 255), js_round (hue2rgb p q (h - 1 / 3) * 255))"
    using False by (simp add: hslToRgb_def p_def q_def Let_def)
  have unit: "0 \<le> hue2rgb p q t0 \<and> hue2rgb p q t0 \<le> 1" if "- 1 \<le> t0" "t0 \<le> 2" for t0
    using hue2rgb_between [OF pq(2) that] pq(1,3) by linarith
  have "is_byte (js_round (hue2rgb p q (h + 1 / 3) * 255))"
    using assms(1,2) by (intro js_round_unit_byte unit [THEN conjunct1] unit [THEN conjunct2]) simp_all
  moreover have "is_byte (js_round (hue2rgb p q h * 255))"
    using assms(1,2) by (intro js_round_unit_byte unit [THEN conjunct1] unit [THEN conjunct2]) simp_all
  moreover have "is_byte (js_round (hue2rgb p q (h - 1 / 3) * 255))"
    using assms(1,2) by (intro js_round_unit_byte unit [THEN conjunct1] unit [THEN conjunct2]) simp_all
  ultimately show ?thesis by (simp add: val)
qed


lemma getColor_hsl_bytes:
  assumes "iteration \<le> maxIter" and "1 \<le> maxIter" and "0 \<le> now"
    and "scheme \<noteq> Fire" and "scheme \<noteq> Matrix"
  shows "is_byte (fst (getColor iteration maxIter scheme now))
    \<and> is_byte (fst (snd (getColor iteration maxIter scheme now)))
    \<and> is_byte (snd (snd (getColor iteration maxIter scheme now)))"
proof (cases "iteration = maxIter")
  case True
  then show ?thesis by (simp add: getColor_def is_byte_def is_integer_def)
next
  case False
  define t where "t = real iteration / real maxIter"
  have t: "0 \<le> t" "t < 1"
    using False assms(1) by (simp_all add: t_def)
  show ?thesis
  proof (cases "scheme = Psychedelic")
    case True
    have "0 \<le> t * 5 + now / 10000" using t(1) assms(3) by simp
    then have "0 \<le> js_rem (t * 5 + now / 10000) 1 \<and> js_rem (t * 5 + now / 10000) 1 < 1"
      by (intro js_rem_range) simp_all
    then have "is_byte (fst (hslToRgb (js_rem (t * 5 + now / 10000) 1) 0.8 0.5))
      \<and> is_byte (fst (snd (hslToRgb (js_rem (t * 5 + now / 10000) 1) 0.8 0.5)))
      \<and> is_byte (snd (snd (hslToRgb (js_rem (t * 5 + now / 10000) 1) 0.8 0.5)))"
      by (intro hslToRgb_bytes) simp_all
    moreover have "getColor iteration maxIter scheme now
        = hslToRgb (js_rem (t * 5 + now / 10000) 1) 0.8 0.5"
      using False True by (simp add: getColor_def t_def)
    ultimately show ?thesis by simp
  next
    case notPsy: False
    define hue where "hue = js_rem (baseHue scheme + t * 360) 360"
    have "0 \<le> baseHue scheme" by (cases scheme) simp_all
    then have "0 \<le> baseHue scheme + t * 360" using t(1) by simp
    then have "0 \<le> hue \<and> hue < 360"
      unfolding hue_def by (intro js_rem_range) simp_all
    then have h: "0 \<le> hue / 360" "hue / 360 \<le> 1" by simp_all
    have l: "0 \<le> 0.2 + t * 0.6" "0.2 + t * 0.6 \<le> 1" using t by simp_all
    have "is_byte (fst (hslToRgb (hue / 360) 0.7 (0.2 + t * 0.6)))
      \<and> is_byte (fst (snd (hslToRgb (hue / 360) 0.7 (0.2 + t * 0.6))))
      \<and> is_byte (snd (snd (hslToRgb (hue / 360) 0.7 (0.2 + t * 0.6))))"
      using h l by (intro hslToRgb_bytes) simp_all
    moreover have "getColor iteration maxIter scheme now
        = hslToRgb (hue / 360) 0.7 (0.2 + t * 0.6)"
      using False notPsy assms(4,5)
      by (cases scheme) (simp_all add: getColor_def t_def hue_def Let_def)
    ultimately show ?thesis by simp
  qed
qed

lemma getColor_fire_range:
  assumes "iteration \<le> maxIter" and "1 \<le> maxIter"
  shows "0 \<le> fst (getColor iteration maxIter Fire now)
    \<and> fst (getColor iteration maxIter Fire now) \<le> 255
    \<and> 0 \<le> fst (snd (getColor iteration maxIter Fire now))
    \<and> fst (snd (getColor iteration maxIter Fire now)) \<le> 255
    \<and> snd (snd (getColor iteration maxIter Fire now)) = 0"
proof (cases "iteration = maxIter")
  case True
  then show ?thesis by (simp add: getColor_def)
next
  case False
  define t where "t = real iteration / real maxIter"
  have t: "0 \<le> t" by (simp add: t_def)
  have "getColor iteration maxIter Fire now
      = (min 255 (t * 510), min 255 (max 0 (t * 510 - 255)), 0)"
    using False by (simp add: getColor_def t_def)
  then show ?thesis using t by simp
qed

lemma getColor_matrix_range:
  assumes "iteration \<le> maxIter" and "1 \<le> maxIter"
  shows "fst (getColor iteration maxIter Matrix now) = 0
    \<and> is_integer (fst (snd (getColor iteration maxIter Matrix now)))
    \<and> 0 \<le> fst (snd (getColor iteration maxIter Matrix now))
    \<and> fst (snd (getColor iteration maxIter Matrix now)) \<le> 510
    \<and> snd (snd (getColor iteration maxIter Matrix now)) = 0"
proof (cases "iteration = maxIter")
  case True
  then show ?thesis by (simp add: getColor_def is_integer_def)
next
  case False
  define t where "t = real iteration / real maxIter"
  have t: "0 \<le> t" "t < 1"
    using False assms(1) by (simp_all add: t_def)
  have val: "getColor iteration maxIter Matrix now = (0, js_round (255 * t * 2), 0)"
    using False by (simp add: getColor_def t_def)
  have "0 \<le> 255 * t * 2 + 1 / 2" using t(1) by simp
  then have lo: "0 \<le> \<lfloor>255 * t * 2 + 1 / 2\<rfloor>" by simp
  have "255 * t * 2 + 1 / 2 < 511" using t(2) by simp
  then have "\<lfloor>255 * t * 2 + 1 / 2\<rfloor> < 511" by (simp add: floor_less_iff)
  then have hi: "\<lfloor>255 * t * 2 + 1 / 2\<rfloor> \<le> 510" by simp
  from lo hi show ?thesis
    by (simp add: val js_round_def is_integer_def)
qed

lemma toUint8Clamp_le: "toUint8Clamp v \<le> 255"
proof -
  define c where "c = min (max v 0) 255"
  define k where "k = \<lfloor>c\<rfloor>"
  have c: "0 \<le> c" "c \<le> 255" by (simp_all add: c_def)
  have k: "0 \<le> k" "k \<le> 255" using c by (simp_all add: k_def floor_le_iff)
  have val: "toUint8Clamp v =
     nat (if c < of_int k + 0.5 then k
          else if c > of_int k + 0.5 then k + 1
          else if even k then k else k + 1)"
    by (simp add: toUint8Clamp_def c_def k_def Let_def)
  show ?thesis
  proof (cases "k = 255")
    case True
    have "of_int k \<le> c" unfolding k_def by (rule of_int_floor_le)
    with True c(2) have "c = 255" by simp
    with True show ?thesis by (simp add: val)
  next
    case False
    with k have "nat k \<le> 255" "nat (k + 1) \<le> 255" by arith+
    then show ?thesis by (simp add: val)
  qed
qed

lemma toUint8Clamp_of_nat: "toUint8Clamp (real n) = min 255 n"
  by (simp add: toUint8Clamp_def Let_def min_def max_def)


lemma toUint8Clamp_integer:
  assumes "is_integer g" and "0 \<le> g"
  shows "real (toUint8Clamp g) = min 255 g"
proof -
  from assms obtain n where g: "g = real n"
    by (metis is_integer_def of_int_0_le_iff of_nat_nat)
  show ?thesis unfolding g toUint8Clamp_of_nat by simp
qed

lemma js_rem_example_1: "js_rem (1 / 24) 1 = 1 / 24"
  by (simp add: js_rem_def)

lemma js_rem_example_2: "js_rem (7 / 24) 1 = 7 / 24"
  by (simp add: js_rem_def)

lemma hslToRgb_example_1: "hslToRgb (1 / 24) (4 / 5) (1 / 2) = (230, 77, 26)"
  by (simp add: hslToRgb_def hue2rgb_def js_round_def Let_def)

lemma hslToRgb_example_2: "hslToRgb (7 / 24) (4 / 5) (1 / 2) = (77, 230, 26)"
  by (simp add: hslToRgb_def hue2rgb_def js_round_def Let_def)

lemma getColor_psychedelic_at_0: "getColor 1 120 Psychedelic 0 = (230, 77, 26)"
  by (simp add: getColor_def js_rem_example_1 hslToRgb_example_1)

lemma getColor_psychedelic_at_2500: "getColor 1 120 Psychedelic 2500 = (77, 230, 26)"
  by (simp add: getColor_def js_rem_example_2 hslToRgb_example_2)

text \<open>
  Claim C2 as stated fails: \<open>getColor\<close> itself neither clamps the Matrix channel nor
  rounds the Fire channels. With \<open>t = 100 / 120\<close> the Matrix green is
  \<open>round (255 * t * 2) = 425\<close>, and with \<open>t = 1 / 120\<close> the Fire red is \<open>4.25\<close>.
\<close>

theorem getColor_channels_counterexample:
  "(100::nat) \<le> 120 \<and> (1::nat) \<le> 120
    \<and> getColor 100 120 Matrix 0 = (0, 425, 0) \<and> \<not> is_byte 425
    \<and> getColor 1 120 Fire 0 = (17 / 4, 0, 0) \<and> \<not> is_byte (17 / 4)"
  by (simp add: getColor_def js_round_def is_byte_def is_integer_def)


text \<open>
  Claim C2, amended. For \<open>iteration \<le> maxIter\<close>, \<open>1 \<le> maxIter\<close> and a clock that is
  not negative: for Classic, Ocean, Purple, Sunset and Psychedelic every channel that
  \<open>getColor\<close> returns is an integer in \<open>[0, 255]\<close>; for Fire the channels lie in
  \<open>[0, 255]\<close> (red and green unrounded, blue 0); for Matrix red and blue are 0 and green
  is an integer in \<open>[0, 510]\<close>. The clamp happens on the store into the pixel buffer:
  every stored byte is at most 255, and the stored Matrix green is \<open>min 255 g\<close>.
\<close>

theorem getColor_channel_ranges:
  assumes "iteration \<le> maxIter" and "1 \<le> maxIter" and "0 \<le> now"
    and "getColor iteration maxIter scheme now = (r, g, b)"
  shows "(scheme \<noteq> Fire \<and> scheme \<noteq> Matrix \<longrightarrow> is_byte r \<and> is_byte g \<and> is_byte b)
    \<and> (scheme = Fire \<longrightarrow> 0 \<le> r \<and> r \<le> 255 \<and> 0 \<le> g \<and> g \<le> 255 \<and> b = 0)
    \<and> (scheme = Matrix \<longrightarrow> r = 0 \<and> is_integer g \<and> 0 \<le> g \<and> g \<le> 510 \<and> b = 0
          \<and> real (toUint8Clamp g) = min 255 g)
    \<and> toUint8Clamp r \<le> 255 \<and> toUint8Clamp g \<le> 255 \<and> toUint8Clamp b \<le> 255"
proof -
  have sel: "fst (getColor iteration maxIter scheme now) = r"
    "fst (snd (getColor iteration maxIter scheme now)) = g"
    "snd (snd (getColor iteration maxIter scheme now)) = b"
    using assms(4) by simp_all
  have hsl: "scheme \<noteq> Fire \<and> scheme \<noteq> Matrix \<longrightarrow> is_byte r \<and> is_byte g \<and> is_byte b"
    using getColor_hsl_bytes [OF assms(1-3), of scheme] sel by simp
  have fire: "scheme = Fire \<longrightarrow> 0 \<le> r \<and> r \<le> 255 \<and> 0 \<le> g \<and> g \<le> 255 \<and> b = 0"
    using getColor_fire_range [OF assms(1,2), of now] sel by auto
  have mat: "scheme = Matrix \<longrightarrow> r = 0 \<and> is_integer g \<and> 0 \<le> g \<and> g \<le> 510 \<and> b = 0"
    using getColor_matrix_range [OF assms(1,2), of now] sel by auto
  have store: "scheme = Matrix \<longrightarrow> real (toUint8Clamp g) = min 255 g"
    using mat by (simp add: toUint8Clamp_integer)
  from hsl fire mat store show ?thesis
    by (simp add: toUint8Clamp_le)
qed

theorem getColor_channel_ranges_witness:
  "(100::nat) \<le> 120 \<and> (1::nat) \<le> 120 \<and> (0::real) \<le> 0
    \<and> getColor 100 120 Matrix 0 = (0, 425, 0)
    \<and> is_integer 425 \<and> (425::real) \<le> 510 \<and> real (toUint8Clamp 425) = min 255 425
    \<and> toUint8Clamp 425 \<le> 255"
proof -
  have c: "getColor 100 120 Matrix 0 = (0, 425, 0)"
    by (simp add: getColor_def js_round_def)
  show ?thesis
    using getColor_channel_ranges [of 100 120 0 Matrix 0 425 0] c by simp
qed


text \<open>
  Claim C9. Whatever the scheme (and the clock), \<open>getColor maxIter maxIter\<close> is black.
\<close>

theorem getColor_in_set_black: "getColor maxIter maxIter scheme now = (0, 0, 0)"
  by (simp add: getColor_def)

theorem getColor_in_set_black_witness:
  "getColor 120 120 Psychedelic 1700000000000 = (0, 0, 0)
    \<and> getColor 1000 1000 Matrix 0 = (0, 0, 0)"
  using getColor_in_set_black [of 120 Psychedelic 1700000000000]
    getColor_in_set_black [of 1000 Matrix 0]
  by simp


section \<open>Properties of the frame renderer\<close>

lemma root_orbit:
  "x0 = - 1 / 2 \<Longrightarrow> y0 = 0 \<Longrightarrow> y = 0 \<Longrightarrow> - 1 / 2 \<le> x \<Longrightarrow> x \<le> 0 \<Longrightarrow> iteration \<le> maxIter \<Longrightarrow>
   mandelLoop x0 y0 maxIter x y iteration = maxIter"
proof (induction x0 y0 maxIter x y iteration rule: mandelLoop.induct)
  case (1 x0 y0 maxIter x y iteration)
  have "(- x) * (- x) \<le> (1 / 2) * (1 / 2)"
    using 1(5,6) by (intro mult_mono) simp_all
  then have sq: "x * x \<le> 1 / 4" by simp
  have sq0: "0 \<le> x * x" by simp
  show ?case
  proof (cases "iteration < maxIter")
    case True
    have cond: "x * x + y * y \<le> 4" using sq 1(4) by simp
    have "mandelLoop x0 y0 maxIter (x * x - y * y + x0) (2 * x * y + y0) (Suc iteration) = maxIter"
      using cond True 1(2,3,4) sq sq0
      by (intro 1(1)) simp_all
    then show ?thesis using cond True by (simp add: mandelLoop_step)
  next
    case False
    then have "mandelLoop x0 y0 maxIter x y iteration = iteration"
      by (intro mandelLoop_stop) simp
    with False 1(7) show ?thesis by simp
  qed
qed

lemma iterate_root: "iterate (- 1 / 2) 0 maxIter = maxIter"
  unfolding iterate_def by (rule root_orbit) simp_all

lemma fold_nested:
  "fold (\<lambda>a. fold (f a) ys) xs = fold (\<lambda>(a, b). f a b) (List.product xs ys)"
  by (induction xs) (simp_all add: fold_map comp_def)

lemma length_drawPixel: "length (drawPixel cv v clock px py data) = length data"
  by (simp add: drawPixel_def Let_def split: prod.split)

lemma pixelIndex_inj:
  assumes "px < w" and "px' < w" and "py * w + px = py' * w + px'"
  shows "px = px' \<and> py = (py'::nat)"
proof -
  have "(py * w + px) mod w = px" "(py' * w + px') mod w = px'"
    using assms(1,2) by simp_all
  with assms(3) have x: "px = px'" by simp
  have "(py * w + px) div w = py" "(py' * w + px') div w = py'"
    using assms(1,2) by simp_all
  with assms(3) have "py = py'" by simp
  with x show ?thesis by simp
qed

lemma drawPixel_other:
  assumes "px < width cv" and "tx < width cv" and "(px, py) \<noteq> (tx, ty)" and "k < 4"
  shows "drawPixel cv v clock px py data ! ((ty * width cv + tx) * 4 + k)
    = data ! ((ty * width cv + tx) * 4 + k)"
proof -
  define a where "a = py * width cv + px"
  define c where "c = ty * width cv + tx"
  define i where "i = a * 4"
  define j where "j = c * 4 + k"
  have "a \<noteq> c"
  proof
    assume "a = c"
    then have "py * width cv + px = ty * width cv + tx" by (simp only: a_def c_def)
    with assms(1,2) have "px = tx \<and> py = ty" by (rule pixelIndex_inj)
    with assms(3) show False by simp
  qed
  then have ne: "i \<noteq> j" "i + 1 \<noteq> j" "i + 2 \<noteq> j" "i + 3 \<noteq> j"
    unfolding i_def j_def using assms(4) by arith+
  obtain r g b where col: "pixelColor cv v clock px py = (r, g, b)"
    by (cases "pixelColor cv v clock px py")
  have "drawPixel cv v clock px py data
      = data[i := toUint8Clamp r, i + 1 := toUint8Clamp g, i + 2 := toUint8Clamp b, i + 3 := 255]"
    by (simp only: drawPixel_def Let_def col prod.case i_def a_def)
  then have "drawPixel cv v clock px py data ! j = data ! j"
    using ne by (simp only: nth_list_update_neq not_False_eq_True)
  then show ?thesis by (simp only: j_def c_def)
qed

lemma drawPixel_self:
  assumes "(py * width cv + px) * 4 + 3 < length data" and "k < 4"
  shows "drawPixel cv v clock px py data ! ((py * width cv + px) * 4 + k)
    = pixelBytes cv v clock px py ! k"
proof -
  from assms(2) consider "k = 0" | "k = 1" | "k = 2" | "k = 3" by arith
  then show ?thesis
    using assms(1)
    by cases (simp_all add: drawPixel_def pixelBytes_def Let_def split: prod.split)
qed

lemma fold_drawPixel_other:
  assumes "\<forall>p \<in> set ps. fst p < width cv" and "tx < width cv" and "(tx, ty) \<notin> set ps" and "k < 4"
  shows "fold (\<lambda>(px, py). drawPixel cv v clock px py) ps data ! ((ty * width cv + tx) * 4 + k)
    = data ! ((ty * width cv + tx) * 4 + k)"
  using assms
proof (induction ps arbitrary: data)
  case Nil
  then show ?case by simp
next
  case (Cons p ps)
  obtain px py where p: "p = (px, py)" by (cases p)
  have "fold (\<lambda>(px, py). drawPixel cv v clock px py) (p # ps) data ! ((ty * width cv + tx) * 4 + k)
      = drawPixel cv v clock px py data ! ((ty * width cv + tx) * 4 + k)"
    using Cons by (simp add: p)
  also have "\<dots> = data ! ((ty * width cv + tx) * 4 + k)"
    using Cons.prems by (intro drawPixel_other) (auto simp: p)
  finally show ?case .
qed

lemma fold_drawPixel_self:
  assumes "\<forall>p \<in> set ps. fst p < width cv" and "(tx, ty) \<in> set ps"
    and "(ty * width cv + tx) * 4 + 3 < length data" and "k < 4"
  shows "fold (\<lambda>(px, py). drawPixel cv v clock px py) ps data ! ((ty * width cv + tx) * 4 + k)
    = pixelBytes cv v clock tx ty ! k"
  using assms
proof (induction ps arbitrary: data)
  case Nil
  then show ?case by simp
next
  case (Cons p ps)
  obtain px py where p: "p = (px, py)" by (cases p)
  have tx: "tx < width cv" using Cons.prems(1,2) by auto
  show ?case
  proof (cases "(tx, ty) \<in> set ps")
    case True
    have "fold (\<lambda>(px, py). drawPixel cv v clock px py) ps (drawPixel cv v clock px py data)
        ! ((ty * width cv + tx) * 4 + k) = pixelBytes cv v clock tx ty ! k"
      using Cons.prems True by (intro Cons.IH) (simp_all add: length_drawPixel)
    then show ?thesis by (simp add: p)
  next
    case False
    with Cons.prems(2) have eq: "px = tx" "py = ty" by (simp_all add: p)
    have "fold (\<lambda>(px, py). drawPixel cv v clock px py) ps (drawPixel cv v clock tx ty data)
          ! ((ty * width cv + tx) * 4 + k)
        = drawPixel cv v clock tx ty data ! ((ty * width cv + tx) * 4 + k)"
      using Cons.prems(1,4) False tx by (intro fold_drawPixel_other) simp_all
    then have "fold (\<lambda>(px, py). drawPixel cv v clock px py) (p # ps) data ! ((ty * width cv + tx) * 4 + k)
        = drawPixel cv v clock tx ty data ! ((ty * width cv + tx) * 4 + k)"
      by (simp add: p eq)
    also have "\<dots> = pixelBytes cv v clock tx ty ! k"
      using Cons.prems(3,4) by (rule drawPixel_self)
    finally show ?thesis .
  qed
qed

lemma draw_pixel:
  assumes "px < width cv" and "py < height cv" and "k < 4"
  shows "draw cv v clock ! ((py * width cv + px) * 4 + k) = pixelBytes cv v clock px py ! k"
proof -
  have "py * width cv + px < height cv * width cv"
  proof -
    have "py * width cv + px < py * width cv + width cv" using assms(1) by simp
    also have "\<dots> = Suc py * width cv" by simp
    also have "\<dots> \<le> height cv * width cv"
      using assms(2) by (intro mult_le_mono1) simp
    finally show ?thesis .
  qed
  then have len: "(py * width cv + px) * 4 + 3 < length (replicate (width cv * height cv * 4) (0::nat))"
    by (simp add: mult.commute)
  have mem: "(px, py) \<in> set (List.product [0..<width cv] [0..<height cv])"
    using assms(1,2) by simp
  have all: "\<forall>p \<in> set (List.product [0..<width cv] [0..<height cv]). fst p < width cv"
    by auto
  show ?thesis
    unfolding draw_def fold_nested
    using all mem len assms(3) by (rule fold_drawPixel_self)
qed

lemma pixelColor_root:
  "pixelColor canvas800x600 defaultView clock 400 300 = (0, 0, 0)"
proof -
  have "planeX canvas800x600 defaultView (real 400) = - 1 / 2"
    by (simp add: planeX_def canvas800x600_def defaultView_def)
  moreover have "planeY canvas800x600 defaultView (real 300) = 0"
    by (simp add: planeY_def canvas800x600_def defaultView_def)
  ultimately have "pixelColor canvas800x600 defaultView clock 400 300
      = getColor (iterate (- 1 / 2) 0 (maxIterations defaultView)) (maxIterations defaultView)
          (colorScheme defaultView) (clock 400 300)"
    by (simp only: pixelColor_def Let_def)
  then show ?thesis
    unfolding iterate_root by (simp add: getColor_def)
qed


text \<open>
  Claim C3. The point \<open>c = -0.5\<close> never escapes: the loop returns the cap, whatever the
  cap. On an 800 by 600 canvas the default view maps pixel \<open>(400, 300)\<close> to the plane
  point \<open>(-0.5, 0)\<close>, the colour computed for that pixel is black, and after \<open>draw\<close> the
  four bytes of that pixel in the buffer are \<open>0, 0, 0, 255\<close>.
\<close>

theorem root_point_renders_black:
  "iterate (- 1 / 2) 0 maxIter = maxIter
   \<and> planeX canvas800x600 defaultView 400 = - 1 / 2
   \<and> planeY canvas800x600 defaultView 300 = 0
   \<and> pixelColor canvas800x600 defaultView clock 400 300 = (0, 0, 0)
   \<and> draw canvas800x600 defaultView clock ! ((300 * 800 + 400) * 4) = 0
   \<and> draw canvas800x600 defaultView clock ! ((300 * 800 + 400) * 4 + 1) = 0
   \<and> draw canvas800x600 defaultView clock ! ((300 * 800 + 400) * 4 + 2) = 0
   \<and> draw canvas800x600 defaultView clock ! ((300 * 800 + 400) * 4 + 3) = 255"
proof -
  have w: "width canvas800x600 = 800" and h: "height canvas800x600 = 600"
    by (simp_all add: canvas800x600_def)
  have bytes: "pixelBytes canvas800x600 defaultView clock 400 300 = [0, 0, 0, 255]"
    by (simp add: pixelBytes_def pixelColor_root toUint8Clamp_def)
  have px: "draw canvas800x600 defaultView clock ! ((300 * width canvas800x600 + 400) * 4 + k)
      = [0, 0, 0, 255] ! k" if "k < 4" for k
    unfolding bytes [symmetric] using that by (intro draw_pixel) (simp_all add: w h)
  have d0: "draw canvas800x600 defaultView clock ! ((300 * 800 + 400) * 4) = 0"
    using px [of 0] by (simp add: w)
  have d1: "draw canvas800x600 defaultView clock ! ((300 * 800 + 400) * 4 + 1) = 0"
    using px [of 1] by (simp add: w)
  have d2: "draw canvas800x600 defaultView clock ! ((300 * 800 + 400) * 4 + 2) = 0"
    using px [of 2] by (simp add: w)
  have d3: "draw canvas800x600 defaultView clock ! ((300 * 800 + 400) * 4 + 3) = 255"
    using px [of 3] by (simp add: w)
  have x: "planeX canvas800x600 defaultView 400 = - 1 / 2"
    by (simp add: planeX_def canvas800x600_def defaultView_def)
  have y: "planeY canvas800x600 defaultView 300 = 0"
    by (simp add: planeY_def canvas800x600_def defaultView_def)
  from iterate_root x y pixelColor_root d0 d1 d2 d3 show ?thesis by blast
qed

theorem root_point_renders_black_witness: "iterate (- 1 / 2) 0 500 = 500"
  using root_point_renders_black [of 500] by simp

lemma drawPixel_clock:
  assumes "colorScheme v \<noteq> Psychedelic"
  shows "drawPixel cv v clock = drawPixel cv v clock'"
proof (intro ext)
  fix px py data
  have "getColor i m (colorScheme v) a = getColor i m (colorScheme v) b" for i m a b
    using assms by (cases "colorScheme v") (simp_all add: getColor_def)
  then have "pixelColor cv v clock px py = pixelColor cv v clock' px py"
    by (simp add: pixelColor_def Let_def)
  then show "drawPixel cv v clock px py data = drawPixel cv v clock' px py data"
    by (simp add: drawPixel_def)
qed


text \<open>
  Claim C8. For every scheme but Psychedelic the colour does not depend on the clock:
  two evaluations of \<open>getColor\<close> on the same iteration, cap and scheme agree whatever
  \<^verbatim>\<open>Date.now()\<close> returns, and so do two renderings of the same view. The Psychedelic
  scheme does depend on it: the same inputs give different colours at clock values 0
  and 2500.
\<close>

theorem getColor_deterministic:
  "(scheme \<noteq> Psychedelic \<longrightarrow>
      getColor iteration maxIter scheme now = getColor iteration maxIter scheme now')
   \<and> (colorScheme v \<noteq> Psychedelic \<longrightarrow> draw cv v clock = draw cv v clock')
   \<and> getColor 1 120 Psychedelic 0 \<noteq> getColor 1 120 Psychedelic 2500"
proof (intro conjI)
  show "scheme \<noteq> Psychedelic \<longrightarrow>
      getColor iteration maxIter scheme now = getColor iteration maxIter scheme now'"
    by (cases scheme) (simp_all add: getColor_def)
  show "colorScheme v \<noteq> Psychedelic \<longrightarrow> draw cv v clock = draw cv v clock'"
    by (simp add: draw_def drawPixel_clock [of v cv clock clock'])
  show "getColor 1 120 Psychedelic 0 \<noteq> getColor 1 120 Psychedelic 2500"
    unfolding getColor_psychedelic_at_0 getColor_psychedelic_at_2500 by simp
qed

theorem getColor_deterministic_witness:
  "Classic \<noteq> Psychedelic \<and> getColor 7 120 Classic 0 = getColor 7 120 Classic 123456
   \<and> colorScheme defaultView \<noteq> Psychedelic
   \<and> draw canvas800x600 defaultView (\<lambda>px py. 0) = draw canvas800x600 defaultView (\<lambda>px py. real (px + py))"
  using getColor_deterministic [of Classic 7 120 0 123456 defaultView canvas800x600 "\<lambda>px py. 0" "\<lambda>px py. real (px + py)"]
  by (simp add: defaultView_def)


lemma length_fold_fold_drawPixel:
  "length (fold (\<lambda>px data. fold (\<lambda>py. drawPixel cv v clock px py) ys data) xs data) = length data"
proof (induction xs arbitrary: data)
  case Nil
  then show ?case by simp
next
  case (Cons x xs)
  have inner: "length (fold (\<lambda>py. drawPixel cv v clock x py) ys d) = length d" for d
    by (induction ys arbitrary: d) (simp_all add: length_drawPixel)
  show ?case by (simp add: Cons.IH inner)
qed


text \<open>
  The buffer \<open>draw\<close> returns has \<open>width * height * 4\<close> bytes (none when a side is 0);
  for every pixel of the canvas the four bytes at its index are the three stored colour
  channels and the alpha 255.
\<close>

theorem draw_fills_buffer:
  "length (draw cv v clock) = width cv * height cv * 4
   \<and> (width cv = 0 \<or> height cv = 0 \<longrightarrow> draw cv v clock = [])
   \<and> (px < width cv \<and> py < height cv \<longrightarrow>
        draw cv v clock ! ((py * width cv + px) * 4) = toUint8Clamp (fst (pixelColor cv v clock px py))
      \<and> draw cv v clock ! ((py * width cv + px) * 4 + 1) = toUint8Clamp (fst (snd (pixelColor cv v clock px py)))
      \<and> draw cv v clock ! ((py * width cv + px) * 4 + 2) = toUint8Clamp (snd (snd (pixelColor cv v clock px py)))
      \<and> draw cv v clock ! ((py * width cv + px) * 4 + 3) = 255)"
proof -
  have len: "length (draw cv v clock) = width cv * height cv * 4"
    unfolding draw_def by (simp only: length_fold_fold_drawPixel length_replicate)
  have empty: "draw cv v clock = []" if "width cv = 0 \<or> height cv = 0"
    using len that by auto
  have px: "draw cv v clock ! ((py * width cv + px) * 4) = toUint8Clamp (fst (pixelColor cv v clock px py))
      \<and> draw cv v clock ! ((py * width cv + px) * 4 + 1) = toUint8Clamp (fst (snd (pixelColor cv v clock px py)))
      \<and> draw cv v clock ! ((py * width cv + px) * 4 + 2) = toUint8Clamp (snd (snd (pixelColor cv v clock px py)))
      \<and> draw cv v clock ! ((py * width cv + px) * 4 + 3) = 255"
    if "px < width cv" "py < height cv"
    using draw_pixel [OF that, of 0 v clock] draw_pixel [OF that, of 1 v clock]
      draw_pixel [OF that, of 2 v clock] draw_pixel [OF that, of 3 v clock]
    by (simp add: pixelBytes_def split: prod.splits)
  from len empty px show ?thesis by blast
qed

theorem draw_fills_buffer_witness:
  "length (draw canvas800x600 defaultView (\<lambda>px py. 0)) = 1920000
   \<and> draw \<lparr>width = 0, height = 600, rectLeft = 0, rectTop = 0\<rparr> defaultView (\<lambda>px py. 0) = []
   \<and> draw canvas800x600 defaultView (\<lambda>px py. 0) ! ((5 * 800 + 7) * 4 + 3) = 255"
  using draw_fills_buffer [of canvas800x600 defaultView "\<lambda>px py. 0" 7 5]
    draw_fills_buffer [of "\<lparr>width = 0, height = 600, rectLeft = 0, rectTop = 0\<rparr>" defaultView "\<lambda>px py. 0" 0 0]
  by (simp add: canvas800x600_def)


section \<open>Properties of the navigation controller\<close>

lemma planeX_center:
  "planeX cv v (real (width cv) / 2) = centerX v"
  by (simp add: planeX_def)

lemma planeY_center:
  "planeY cv v (real (height cv) / 2) = centerY v"
  by (simp add: planeY_def)

lemma step_frame:
  "view (step cv c st) = view (handleCommand cv c st)"
  "isContinuousZoom (step cv c st) = isContinuousZoom (handleCommand cv c st)"
  "zoomTargetX (step cv c st) = zoomTargetX (handleCommand cv c st)"
  "zoomTargetY (step cv c st) = zoomTargetY (handleCommand cv c st)"
  "isDragging (step cv c st) = isDragging (handleCommand cv c st)"
  "dragDistance (step cv c st) = dragDistance (handleCommand cv c st)"
  by (simp_all add: step_def Let_def)

lemma step_intervalView:
  "zoom (view (handleCommand cv c st)) \<noteq> zoom (view st) \<Longrightarrow>
   intervalView (step cv c st) = view (handleCommand cv c st)"
  by (simp add: step_def Let_def depsUnchanged_def)

lemma diveTick_view:
  assumes "isContinuousZoom st"
  shows "view (diveTick cv st) =
    (view st)\<lparr>centerX := centerX (view st)
                  + (planeX cv (intervalView st) (zoomTargetX st) - centerX (view st)) * 0.2,
              centerY := centerY (view st)
                  + (planeY cv (intervalView st) (zoomTargetY st) - centerY (view st)) * 0.2,
              zoom := zoom (view st) * 1.05\<rparr>"
  using assms by (simp add: diveTick_def Let_def)

lemma diveTick_frame:
  "isContinuousZoom (diveTick cv st) = isContinuousZoom st"
  "zoomTargetX (diveTick cv st) = zoomTargetX st"
  "zoomTargetY (diveTick cv st) = zoomTargetY st"
  by (simp_all add: diveTick_def Let_def)

lemma diveTick_at_center:
  assumes "isContinuousZoom st" and "intervalView st = view st"
    and "zoomTargetX st = real (width cv) / 2" and "zoomTargetY st = real (height cv) / 2"
  shows "view (diveTick cv st) = (view st)\<lparr>zoom := zoom (view st) * 1.05\<rparr>"
proof -
  have x: "planeX cv (view st) (zoomTargetX st) = centerX (view st)"
    unfolding assms(3) by (rule planeX_center)
  have y: "planeY cv (view st) (zoomTargetY st) = centerY (view st)"
    unfolding assms(4) by (rule planeY_center)
  show ?thesis
    unfolding diveTick_view [OF assms(1)] assms(2) x y by simp
qed

lemma run_Cons: "run cv (c # cmds) st = run cv cmds (step cv c st)"
  by (simp add: run_def)

lemma dive_ticks_at_center:
  assumes "isContinuousZoom st" and "intervalView st = view st" and "0 < zoom (view st)"
    and "zoomTargetX st = real (width cv) / 2" and "zoomTargetY st = real (height cv) / 2"
  shows "view (run cv (replicate n DiveTick) st) = (view st)\<lparr>zoom := zoom (view st) * 1.05 ^ n\<rparr>"
  using assms
proof (induction n arbitrary: st)
  case 0
  then show ?case by (simp add: run_def)
next
  case (Suc n)
  define st' where "st' = step cv DiveTick st"
  have v: "view st' = (view st)\<lparr>zoom := zoom (view st) * 1.05\<rparr>"
    unfolding st'_def using Suc.prems by (simp add: step_frame diveTick_at_center)
  have z: "zoom (view (handleCommand cv DiveTick st)) \<noteq> zoom (view st)"
    using Suc.prems by (simp add: diveTick_at_center)
  have iv: "intervalView st' = view st'"
    unfolding st'_def using z by (simp add: step_intervalView step_frame)
  have fr: "isContinuousZoom st'" "zoomTargetX st' = real (width cv) / 2"
    "zoomTargetY st' = real (height cv) / 2"
    unfolding st'_def using Suc.prems by (simp_all add: step_frame diveTick_frame)
  have pos: "0 < zoom (view st')"
    using Suc.prems(3) by (simp add: v)
  have "view (run cv (replicate n DiveTick) st') = (view st')\<lparr>zoom := zoom (view st') * 1.05 ^ n\<rparr>"
    using fr(1) iv pos fr(2,3) by (rule Suc.IH)
  also have "\<dots> = (view st)\<lparr>zoom := zoom (view st) * 1.05 ^ Suc n\<rparr>"
    by (simp add: v)
  finally show ?case
    by (simp only: replicate_Suc run_Cons st'_def)
qed

text \<open>
  As long as the interval holds the current view (and the zoom is positive, so that
  every tick changes it and the effect renews the interval), a tick moves each centre
  coordinate by 0.2 of its distance to the plane point under the dive target and
  multiplies the zoom by 1.05; with the target on the exact centre pixel, 20 ticks
  leave the centre where it was and multiply the zoom by \<open>1.05 ^ 20\<close>.
\<close>

theorem fresh_dive_tick_eases_and_zooms:
  assumes "isContinuousZoom st" and "intervalView st = view st"
    and "0 < width cv" and "0 < height cv" and "0 < zoom (view st)"
  shows "centerX (view (step cv DiveTick st)) = centerX (view st)
           + 0.2 * (planeX cv (view st) (zoomTargetX st) - centerX (view st))
    \<and> centerY (view (step cv DiveTick st)) = centerY (view st)
           + 0.2 * (planeY cv (view st) (zoomTargetY st) - centerY (view st))
    \<and> zoom (view (step cv DiveTick st)) = zoom (view st) * 1.05
    \<and> intervalView (step cv DiveTick st) = view (step cv DiveTick st)
    \<and> (zoomTargetX st = real (width cv) / 2 \<and> zoomTargetY st = real (height cv) / 2 \<longrightarrow>
         centerX (view (run cv (replicate 20 DiveTick) st)) = centerX (view st)
       \<and> centerY (view (run cv (replicate 20 DiveTick) st)) = centerY (view st)
       \<and> zoom (view (run cv (replicate 20 DiveTick) st)) = zoom (view st) * 1.05 ^ 20)"
proof -
  have tick: "centerX (view (step cv DiveTick st)) = centerX (view st)
           + 0.2 * (planeX cv (view st) (zoomTargetX st) - centerX (view st))
    \<and> centerY (view (step cv DiveTick st)) = centerY (view st)
           + 0.2 * (planeY cv (view st) (zoomTargetY st) - centerY (view st))
    \<and> zoom (view (step cv DiveTick st)) = zoom (view st) * 1.05"
    by (simp add: step_frame diveTick_view [OF assms(1)] assms(2))
  have "zoom (view (handleCommand cv DiveTick st)) \<noteq> zoom (view st)"
    using assms(5) by (simp add: diveTick_view [OF assms(1)])
  then have fresh: "intervalView (step cv DiveTick st) = view (step cv DiveTick st)"
    by (simp add: step_intervalView step_frame)
  have many: "centerX (view (run cv (replicate 20 DiveTick) st)) = centerX (view st)
       \<and> centerY (view (run cv (replicate 20 DiveTick) st)) = centerY (view st)
       \<and> zoom (view (run cv (replicate 20 DiveTick) st)) = zoom (view st) * 1.05 ^ 20"
    if "zoomTargetX st = real (width cv) / 2" "zoomTargetY st = real (height cv) / 2"
    by (simp add: dive_ticks_at_center [OF assms(1,2,5) that])
  from tick fresh many show ?thesis by blast
qed

theorem fresh_dive_tick_eases_and_zooms_witness:
  "isContinuousZoom divingAtCenter \<and> intervalView divingAtCenter = view divingAtCenter
    \<and> 0 < width canvas800x600 \<and> 0 < height canvas800x600
    \<and> 0 < zoom (view divingAtCenter)
    \<and> zoomTargetX divingAtCenter = real (width canvas800x600) / 2
    \<and> zoomTargetY divingAtCenter = real (height canvas800x600) / 2
    \<and> zoom (view (step canvas800x600 DiveTick divingAtCenter)) = 1.05
    \<and> centerX (view (run canvas800x600 (replicate 20 DiveTick) divingAtCenter)) = - 0.5
    \<and> centerY (view (run canvas800x600 (replicate 20 DiveTick) divingAtCenter)) = 0
    \<and> zoom (view (run canvas800x600 (replicate 20 DiveTick) divingAtCenter)) = 1.05 ^ 20"
  using fresh_dive_tick_eases_and_zooms [of divingAtCenter canvas800x600]
  by (simp add: divingAtCenter_def initialState_def defaultView_def canvas800x600_def)

lemma staleDiveState_value:
  "staleDiveState = initialState\<lparr>
     view := defaultView\<lparr>centerX := - 0.1011, centerY := 0.9563, zoom := 100\<rparr>,
     isContinuousZoom := True, zoomTargetX := 400, zoomTargetY := 300,
     intervalView := defaultView\<lparr>centerX := - 0.7463, centerY := 0.1102, zoom := 100\<rparr>\<rparr>"
  by (simp add: staleDiveState_def staleDive_def run_def step_def depsUnchanged_def Let_def
    handleMouseMove_def centerClick_def canvas800x600_def initialState_def defaultView_def
    INTERESTING_LOCATIONS_def)

text \<open>
  Claim C4 fails on the code, by the missing dependencies of the continuous-zoom effect:
  its callback reads \<^verbatim>\<open>view.centerX\<close> and \<^verbatim>\<open>view.centerY\<close>, its dependency list names
  \<^verbatim>\<open>view.zoom\<close> only. In \<open>staleDiveState\<close> the dive is on, the target is the exact
  centre pixel of the canvas and the plane point under it is the current centre
  \<open>(-0.1011, 0.9563)\<close>, yet the next tick moves the centre, towards the centre of
  the view the interval still holds.
\<close>

theorem stale_dive_tick_moves_centre:
  "isContinuousZoom staleDiveState
   \<and> zoomTargetX staleDiveState = real (width canvas800x600) / 2
   \<and> zoomTargetY staleDiveState = real (height canvas800x600) / 2
   \<and> centerX (view staleDiveState) = - 0.1011 \<and> centerY (view staleDiveState) = 0.9563
   \<and> planeX canvas800x600 (view staleDiveState) (zoomTargetX staleDiveState) = - 0.1011
   \<and> planeY canvas800x600 (view staleDiveState) (zoomTargetY staleDiveState) = 0.9563
   \<and> centerX (intervalView staleDiveState) = - 0.7463
   \<and> centerY (intervalView staleDiveState) = 0.1102
   \<and> centerX (view (step canvas800x600 DiveTick staleDiveState)) < - 0.23
   \<and> centerY (view (step canvas800x600 DiveTick staleDiveState)) < 0.79"
  by (simp add: staleDiveState_value step_frame diveTick_def Let_def planeX_def planeY_def
    canvas800x600_def initialState_def defaultView_def)





lemma roundTiesEven_of_int: "roundTiesEven (of_int n) = n"
  by (simp add: roundTiesEven_def)

lemma roundTiesEven_half: "roundTiesEven (1 / 2) = 0"
  by (simp add: roundTiesEven_def)

lemma roundTiesEven_nonneg:
  assumes "0 \<le> v"
  shows "0 \<le> roundTiesEven v"
proof -
  have "0 \<le> \<lfloor>v\<rfloor>" using assms by simp
  then show ?thesis by (simp add: roundTiesEven_def Let_def del: zero_le_floor)
qed

lemma roundTiesEven_pos:
  assumes "1 / 2 < v"
  shows "1 \<le> roundTiesEven v"
proof -
  define f where "f = \<lfloor>v\<rfloor>"
  have f0: "0 \<le> f" unfolding f_def using assms by simp
  have val: "roundTiesEven v =
     (if v < of_int f + 1 / 2 then f
      else if of_int f + 1 / 2 < v then f + 1
      else if even f then f else f + 1)"
    by (simp add: roundTiesEven_def f_def Let_def)
  show ?thesis
  proof (cases "f = 0")
    case True
    with assms show ?thesis by (simp add: val)
  next
    case False
    with f0 have "1 \<le> f" by simp
    then show ?thesis by (simp add: val)
  qed
qed

lemma halveDouble_nonneg:
  assumes "0 \<le> z"
  shows "0 \<le> halveDouble z"
proof (cases "1 / 2 ^ normalExp \<le> \<bar>z / 2\<bar>")
  case True
  with assms show ?thesis by (simp add: halveDouble_def)
next
  case False
  have "0 \<le> z / 2 * 2 ^ subnormalExp" using assms by simp
  then have "0 \<le> roundTiesEven (z / 2 * 2 ^ subnormalExp)" by (rule roundTiesEven_nonneg)
  then have "0 \<le> (of_int (roundTiesEven (z / 2 * 2 ^ subnormalExp)) :: real) / 2 ^ subnormalExp"
    by simp
  with False show ?thesis by (simp only: halveDouble_def if_False)
qed

lemma halveDouble_pos:
  assumes "1 / 2 ^ subnormalExp < z"
  shows "0 < halveDouble z"
proof (cases "1 / 2 ^ normalExp \<le> \<bar>z / 2\<bar>")
  case True
  have "0 < z" using assms by (rule order.strict_trans [rotated]) simp
  with True show ?thesis by (simp add: halveDouble_def)
next
  case False
  have "1 < z * 2 ^ subnormalExp"
    using assms by (simp add: pos_divide_less_eq)
  then have "1 / 2 < z / 2 * 2 ^ subnormalExp" by simp
  then have "1 \<le> roundTiesEven (z / 2 * 2 ^ subnormalExp)" by (rule roundTiesEven_pos)
  then have "0 < (of_int (roundTiesEven (z / 2 * 2 ^ subnormalExp)) :: real) / 2 ^ subnormalExp"
    by simp
  with False show ?thesis by (simp only: halveDouble_def if_False)
qed

lemma halveDouble_power:
  assumes "k < subnormalExp"
  shows "halveDouble (1 / 2 ^ k) = 1 / 2 ^ Suc k"
proof (cases "Suc k \<le> normalExp")
  case True
  then have "(2::real) ^ Suc k \<le> 2 ^ normalExp"
    by (intro power_increasing) simp_all
  then have "1 / 2 ^ normalExp \<le> (1::real) / 2 ^ Suc k"
    by (intro divide_left_mono) simp_all
  then have "1 / 2 ^ normalExp \<le> \<bar>(1::real) / 2 ^ k / 2\<bar>" by simp
  then have "halveDouble (1 / 2 ^ k) = 1 / 2 ^ k / 2"
    by (simp only: halveDouble_def if_True)
  then show ?thesis by simp
next
  case False
  then have "(2::real) ^ normalExp < 2 ^ Suc k"
    by (intro power_strict_increasing) simp_all
  then have "(1::real) / 2 ^ Suc k < 1 / 2 ^ normalExp"
    by (intro divide_strict_left_mono) simp_all
  then have small: "\<not> 1 / 2 ^ normalExp \<le> \<bar>(1::real) / 2 ^ k / 2\<bar>" by simp
  define d where "d = subnormalExp - Suc k"
  have split: "subnormalExp = Suc k + d" using assms by (simp add: d_def)
  have p: "(2::real) ^ subnormalExp = 2 ^ Suc k * 2 ^ d"
    by (subst split) (rule power_add)
  have "(1::real) / 2 ^ k / 2 * 2 ^ subnormalExp = 2 ^ d"
    unfolding p by simp
  also have "\<dots> = of_int (2 ^ d)" by simp
  finally have "roundTiesEven ((1::real) / 2 ^ k / 2 * 2 ^ subnormalExp) = 2 ^ d"
    by (simp only: roundTiesEven_of_int)
  then have "halveDouble (1 / 2 ^ k) = of_int (2 ^ d) / 2 ^ subnormalExp"
    using small by (simp only: halveDouble_def if_False)
  also have "\<dots> = 1 / 2 ^ Suc k"
    unfolding p by simp
  finally show ?thesis .
qed

lemma halveDouble_smallest: "halveDouble (1 / 2 ^ subnormalExp) = 0"
proof -
  have "(2::real) ^ normalExp < 2 ^ Suc subnormalExp"
    by (intro power_strict_increasing) (simp_all add: normalExp_def subnormalExp_def)
  then have "(1::real) / 2 ^ Suc subnormalExp < 1 / 2 ^ normalExp"
    by (intro divide_strict_left_mono) simp_all
  then have small: "\<not> 1 / 2 ^ normalExp \<le> \<bar>(1::real) / 2 ^ subnormalExp / 2\<bar>" by simp
  have "(1::real) / 2 ^ subnormalExp / 2 * 2 ^ subnormalExp = 1 / 2" by simp
  then have "roundTiesEven ((1::real) / 2 ^ subnormalExp / 2 * 2 ^ subnormalExp) = 0"
    by (simp only: roundTiesEven_half)
  then have "halveDouble (1 / 2 ^ subnormalExp) = of_int 0 / 2 ^ subnormalExp"
    using small by (simp only: halveDouble_def if_False)
  then show ?thesis by simp
qed

lemma run_append: "run cv (xs @ ys) st = run cv ys (run cv xs st)"
  by (simp add: run_def)

lemma run_replicate_Suc:
  "run cv (replicate (Suc k) c) st = step cv c (run cv (replicate k c) st)"
proof -
  have "replicate (Suc k) c = replicate k c @ [c]"
    by (simp add: replicate_append_same)
  then show ?thesis
    by (simp only: run_append) (simp add: run_def)
qed

lemma zoom_after_zoom_outs:
  assumes "zoom (view st) = 1" and "k \<le> subnormalExp"
  shows "zoom (view (run cv (replicate k ZoomOut) st)) = 1 / 2 ^ k"
  using assms(2)
proof (induction k)
  case 0
  then show ?case by (simp add: run_def assms(1))
next
  case (Suc k)
  then have IH: "zoom (view (run cv (replicate k ZoomOut) st)) = 1 / 2 ^ k" and k: "k < subnormalExp"
    by simp_all
  have "run cv (replicate (Suc k) ZoomOut) st
      = step cv ZoomOut (run cv (replicate k ZoomOut) st)"
    by (rule run_replicate_Suc)
  then have "zoom (view (run cv (replicate (Suc k) ZoomOut) st)) = halveDouble (1 / 2 ^ k)"
    by (simp add: step_frame IH)
  then show ?case by (simp only: halveDouble_power [OF k])
qed

lemma zoom_outs_allowed: "list_all commandOk (replicate n ZoomOut)"
  by (induction n) simp_all

lemma zoom_after_underflow:
  assumes "zoom (view st) = 1"
  shows "zoom (view (run cv (replicate (Suc subnormalExp) ZoomOut) st)) = 0"
proof -
  have "run cv (replicate (Suc subnormalExp) ZoomOut) st
      = step cv ZoomOut (run cv (replicate subnormalExp ZoomOut) st)"
    by (rule run_replicate_Suc)
  then have "zoom (view (run cv (replicate (Suc subnormalExp) ZoomOut) st))
      = halveDouble (1 / 2 ^ subnormalExp)"
    by (simp add: step_frame zoom_after_zoom_outs [OF assms order_refl])
  then show ?thesis by (simp only: halveDouble_smallest)
qed

lemma locations_positive: "\<forall>loc \<in> set INTERESTING_LOCATIONS. 0 < loc_z loc"
  by (simp add: INTERESTING_LOCATIONS_def)

lemma challenges_positive: "\<forall>ch \<in> set DAILY_CHALLENGES. 0 < dc_zoom ch"
  by (simp add: DAILY_CHALLENGES_def)

lemma dailyChallengeFor_positive: "0 < dc_zoom (dailyChallengeFor today)"
proof -
  have "today mod length DAILY_CHALLENGES < length DAILY_CHALLENGES"
    by (simp add: DAILY_CHALLENGES_def)
  then have "dailyChallengeFor today \<in> set DAILY_CHALLENGES"
    unfolding dailyChallengeFor_def by (rule nth_mem)
  with challenges_positive show ?thesis by blast
qed

lemma landmark_positive:
  "idx < length INTERESTING_LOCATIONS \<Longrightarrow> 0 < loc_z (INTERESTING_LOCATIONS ! idx)"
  using locations_positive nth_mem by blast

lemma handleCanvasClick_invariant:
  "viewInvariant (view st) \<Longrightarrow> viewInvariant (view (handleCanvasClick cv e st))"
  by (simp add: handleCanvasClick_def viewInvariant_def Let_def)

lemma handleCommand_invariant:
  assumes "viewInvariant (view st)" and "commandOk c" and "c \<noteq> ZoomOut"
  shows "viewInvariant (view (handleCommand cv c st))"
proof (cases c)
  case (JumpLandmark idx)
  with assms(1) landmark_positive [of idx] show ?thesis
    by (simp add: viewInvariant_def Let_def)
next
  case (JumpDaily today)
  with assms(1) dailyChallengeFor_positive [of today] show ?thesis
    by (simp add: viewInvariant_def Let_def)
next
  case (MouseUp e)
  with assms(1) handleCanvasClick_invariant [of st cv e] show ?thesis
    by (simp add: handleMouseUp_def)
next
  case (MouseMove e)
  with assms(1) show ?thesis
    by (simp add: handleMouseMove_def viewInvariant_def Let_def)
next
  case (MouseDown e)
  with assms(1) show ?thesis
    by (simp add: handleMouseDown_def)
next
  case DiveTick
  with assms(1) show ?thesis
    by (simp add: diveTick_def viewInvariant_def Let_def)
qed (use assms in \<open>simp_all add: viewInvariant_def\<close>)

lemma zoom_out_invariant:
  assumes "viewInvariant (view st)" and "1 / 2 ^ subnormalExp < zoom (view st)"
  shows "viewInvariant (view (handleCommand cv ZoomOut st))"
  using assms(1) halveDouble_pos [OF assms(2)] by (simp add: viewInvariant_def)

lemma handleCommand_weakInvariant:
  assumes "weakInvariant (view st)" and "commandOk c"
  shows "weakInvariant (view (handleCommand cv c st))"
proof (cases c)
  case ZoomOut
  with assms(1) show ?thesis
    by (simp add: weakInvariant_def halveDouble_nonneg)
next
  case (JumpLandmark idx)
  with assms(1) landmark_positive [of idx] show ?thesis
    by (simp add: weakInvariant_def Let_def less_imp_le)
next
  case (JumpDaily today)
  with assms(1) dailyChallengeFor_positive [of today] show ?thesis
    by (simp add: weakInvariant_def Let_def less_imp_le)
next
  case (MouseUp e)
  with assms(1) show ?thesis
    by (simp add: handleMouseUp_def handleCanvasClick_def weakInvariant_def Let_def)
next
  case (MouseMove e)
  with assms(1) show ?thesis
    by (simp add: handleMouseMove_def weakInvariant_def Let_def)
next
  case (MouseDown e)
  with assms(1) show ?thesis
    by (simp add: handleMouseDown_def)
next
  case DiveTick
  with assms(1) show ?thesis
    by (simp add: diveTick_def weakInvariant_def Let_def)
qed (use assms in \<open>simp_all add: weakInvariant_def\<close>)

lemma run_weakInvariant:
  assumes "weakInvariant (view st)" and "list_all commandOk cmds"
  shows "weakInvariant (view (run cv cmds st))"
  using assms
proof (induction cmds arbitrary: st)
  case Nil
  then show ?case by (simp add: run_def)
next
  case (Cons c cmds)
  then have "weakInvariant (view (step cv c st))"
    by (simp add: step_frame handleCommand_weakInvariant)
  then have "weakInvariant (view (run cv cmds (step cv c st)))"
    using Cons.prems by (intro Cons.IH) simp_all
  then show ?case by (simp only: run_Cons)
qed

text \<open>
  Claim C6 as stated fails: the zoom is a double, and halving the smallest positive
  double gives 0. From the default viewport, 1075 presses of the zoom-out button leave
  \<open>zoom = 0\<close>.
\<close>

theorem zoom_out_underflow_counterexample:
  "list_all commandOk (replicate 1075 ZoomOut)
   \<and> viewInvariant (view initialState)
   \<and> zoom (view (run canvas800x600 (replicate 1075 ZoomOut) initialState)) = 0
   \<and> \<not> viewInvariant (view (run canvas800x600 (replicate 1075 ZoomOut) initialState))"
proof -
  have n: "(1075::nat) = Suc subnormalExp" by (simp add: subnormalExp_def)
  have one: "zoom (view initialState) = 1" by (simp add: initialState_def defaultView_def)
  have z: "zoom (view (run canvas800x600 (replicate 1075 ZoomOut) initialState)) = 0"
    unfolding n using one by (rule zoom_after_underflow)
  have init: "viewInvariant (view initialState)"
    by (simp add: viewInvariant_def initialState_def defaultView_def)
  have bad: "\<not> viewInvariant (view (run canvas800x600 (replicate 1075 ZoomOut) initialState))"
    unfolding viewInvariant_def z by simp
  from zoom_outs_allowed [of 1075] init z bad show ?thesis by blast
qed

text \<open>
  Claim C6, amended. From the default viewport every sequence of commands (the slider
  delivering one of its values) keeps \<open>0 \<le> zoom\<close> and \<open>1 \<le> maxIterations\<close>. Every
  command other than zoom-out keeps \<open>0 < zoom\<close> as well, and zoom-out keeps it when the
  zoom is above the smallest positive double, \<open>1 / 2 ^ 1074\<close>.
\<close>

theorem navigation_invariants:
  "(list_all commandOk cmds \<longrightarrow>
      0 \<le> zoom (view (run cv cmds initialState))
      \<and> 1 \<le> maxIterations (view (run cv cmds initialState)))
   \<and> (viewInvariant (view st) \<and> commandOk c \<and> c \<noteq> ZoomOut \<longrightarrow>
        viewInvariant (view (step cv c st)))
   \<and> (viewInvariant (view st) \<and> 1 / 2 ^ 1074 < zoom (view st) \<longrightarrow>
        viewInvariant (view (step cv ZoomOut st)))"
proof (intro conjI impI)
  have init: "weakInvariant (view initialState)"
    by (simp add: weakInvariant_def initialState_def defaultView_def)
  assume "list_all commandOk cmds"
  with init have w: "weakInvariant (view (run cv cmds initialState))"
    by (rule run_weakInvariant)
  from w show "0 \<le> zoom (view (run cv cmds initialState))"
    by (simp add: weakInvariant_def)
  from w show "1 \<le> maxIterations (view (run cv cmds initialState))"
    by (simp add: weakInvariant_def)
next
  assume "viewInvariant (view st) \<and> commandOk c \<and> c \<noteq> ZoomOut"
  then show "viewInvariant (view (step cv c st))"
    by (simp add: step_frame handleCommand_invariant)
next
  assume a: "viewInvariant (view st) \<and> 1 / 2 ^ 1074 < zoom (view st)"
  have "(1074::nat) = subnormalExp" by (simp add: subnormalExp_def)
  with a have "1 / 2 ^ subnormalExp < zoom (view st)" by simp
  with a show "viewInvariant (view (step cv ZoomOut st))"
    by (simp only: step_frame zoom_out_invariant)
qed

theorem navigation_invariants_witness:
  "list_all commandOk [ZoomOut, SetMaxIterations 50, JumpLandmark 2, DiveTick, MouseDown centerClick,
      MouseUp centerClick, JumpDaily 6, ZoomIn, Reset, ZoomOut]
   \<and> 0 \<le> zoom (view (run canvas800x600 [ZoomOut, SetMaxIterations 50, JumpLandmark 2, DiveTick,
      MouseDown centerClick, MouseUp centerClick, JumpDaily 6, ZoomIn, Reset, ZoomOut] initialState))
   \<and> 1 \<le> maxIterations (view (run canvas800x600 [ZoomOut, SetMaxIterations 50, JumpLandmark 2,
      DiveTick, MouseDown centerClick, MouseUp centerClick, JumpDaily 6, ZoomIn, Reset, ZoomOut]
      initialState))
   \<and> viewInvariant (view initialState) \<and> commandOk ZoomIn \<and> ZoomIn \<noteq> ZoomOut
   \<and> viewInvariant (view (step canvas800x600 ZoomIn initialState))
   \<and> 1 / 2 ^ 1074 < zoom (view initialState)
   \<and> viewInvariant (view (step canvas800x600 ZoomOut initialState))"
proof -
  have init: "viewInvariant (view initialState)"
    by (simp add: viewInvariant_def initialState_def defaultView_def)
  have "(1::real) < 2 ^ 1074" by (rule one_less_power) simp_all
  then have big: "1 / 2 ^ 1074 < zoom (view initialState)"
    by (simp add: initialState_def defaultView_def)
  show ?thesis
    using navigation_invariants [of "[ZoomOut, SetMaxIterations 50, JumpLandmark 2, DiveTick,
      MouseDown centerClick, MouseUp centerClick, JumpDaily 6, ZoomIn, Reset, ZoomOut]"
      canvas800x600 initialState ZoomIn] init big
    by simp
qed

text \<open>
  \<open>Reset\<close> restores the default viewport exactly, and a second \<open>Reset\<close> changes nothing.
\<close>

theorem reset_restores_default:
  "view (step cv Reset st) = defaultView \<and> step cv Reset (step cv Reset st) = step cv Reset st"
  by (simp add: defaultView_def step_def depsUnchanged_def Let_def)


text \<open>
  While dragging, a mouse move subtracts the plane-space image of the pixel delta from
  the centre and leaves zoom and cap alone; a zero delta leaves the view unchanged.
\<close>

theorem drag_pans_opposite:
  assumes "isDragging st" and "0 < width cv" and "0 < height cv" and "0 < zoom (view st)"
  shows "centerX (view (handleMouseMove cv e st)) = centerX (view st)
           - ((clientX e - lastMouseX st) * (3.5 / zoom (view st))
               * (real (width cv) / real (height cv))) / real (width cv)
    \<and> centerY (view (handleMouseMove cv e st)) = centerY (view st)
           - ((clientY e - lastMouseY st) * (3.5 / zoom (view st))) / real (height cv)
    \<and> zoom (view (handleMouseMove cv e st)) = zoom (view st)
    \<and> maxIterations (view (handleMouseMove cv e st)) = maxIterations (view st)
    \<and> (clientX e = lastMouseX st \<and> clientY e = lastMouseY st \<longrightarrow>
          view (handleMouseMove cv e st) = view st)"
  using assms(1) by (simp add: handleMouseMove_def Let_def)

theorem drag_pans_opposite_witness:
  "isDragging (handleMouseDown centerClick initialState)
    \<and> 0 < width canvas800x600 \<and> 0 < height canvas800x600
    \<and> 0 < zoom (view (handleMouseDown centerClick initialState))
    \<and> centerY (view (handleMouseMove canvas800x600 (centerClick\<lparr>clientY := 360\<rparr>)
          (handleMouseDown centerClick initialState))) = - 0.35
    \<and> zoom (view (handleMouseMove canvas800x600 (centerClick\<lparr>clientY := 360\<rparr>)
          (handleMouseDown centerClick initialState))) = 1"
  using drag_pans_opposite [of "handleMouseDown centerClick initialState" canvas800x600
    "centerClick\<lparr>clientY := 360\<rparr>"]
  by (simp add: handleMouseDown_def centerClick_def initialState_def defaultView_def
    canvas800x600_def)


text \<open>
  The canvas shows a strip of the plane that is \<open>3.5 / zoom\<close> high and
  \<open>3.5 / zoom * (width / height)\<close> wide, centred on \<open>(centerX, centerY)\<close>.
\<close>

theorem plane_span:
  assumes "0 < width cv" and "0 < height cv" and "0 < zoom v"
  shows "planeY cv v (real (height cv)) - planeY cv v 0 = 3.5 / zoom v
    \<and> planeX cv v (real (width cv)) - planeX cv v 0
        = 3.5 / zoom v * (real (width cv) / real (height cv))
    \<and> planeX cv v (real (width cv) / 2) = centerX v
    \<and> planeY cv v (real (height cv) / 2) = centerY v"
  using assms by (simp add: planeX_def planeY_def field_simps)

theorem plane_span_witness:
  "0 < width canvas800x600 \<and> 0 < height canvas800x600 \<and> 0 < zoom defaultView
   \<and> planeY canvas800x600 defaultView 600 - planeY canvas800x600 defaultView 0 = 3.5
   \<and> planeX canvas800x600 defaultView 800 - planeX canvas800x600 defaultView 0 = 14 / 3"
  using plane_span [of canvas800x600 defaultView]
  by (simp add: canvas800x600_def defaultView_def)


text \<open>A click with Ctrl or Meta held toggles the dive and leaves the view alone.\<close>

theorem ctrl_click_toggles_dive:
  assumes "ctrlKey e \<or> metaKey e"
  shows "view (handleCanvasClick cv e st) = view st
    \<and> isContinuousZoom (handleCanvasClick cv e st) = (\<not> isContinuousZoom st)"
  using assms by (simp add: handleCanvasClick_def)

theorem ctrl_click_toggles_dive_witness:
  "(ctrlKey (centerClick\<lparr>ctrlKey := True\<rparr>) \<or> metaKey (centerClick\<lparr>ctrlKey := True\<rparr>))
   \<and> view (handleCanvasClick canvas800x600 (centerClick\<lparr>ctrlKey := True\<rparr>) initialState) = defaultView
   \<and> isContinuousZoom (handleCanvasClick canvas800x600 (centerClick\<lparr>ctrlKey := True\<rparr>) initialState)"
  using ctrl_click_toggles_dive [of "centerClick\<lparr>ctrlKey := True\<rparr>" canvas800x600 initialState]
  by (simp add: centerClick_def initialState_def)


text \<open>
  A release after the pointer has travelled 5 pixels or more ends the drag without
  zooming.
\<close>

theorem long_drag_is_not_a_click:
  assumes "isDragging st" and "5 \<le> dragDistance st"
  shows "view (handleMouseUp cv e st) = view st \<and> \<not> isDragging (handleMouseUp cv e st)"
  using assms by (simp add: handleMouseUp_def)


theorem long_drag_is_not_a_click_witness:
  "isDragging longDrag \<and> 5 \<le> dragDistance longDrag
   \<and> view (handleMouseUp canvas800x600 centerClick longDrag) = defaultView
   \<and> \<not> isDragging (handleMouseUp canvas800x600 centerClick longDrag)"
  using long_drag_is_not_a_click [of longDrag canvas800x600 centerClick]
  by (simp add: longDrag_def initialState_def)

end
